theory Spec2Isabelle
  imports Complex_Main
begin

section \<open>Data model of \<open>src/src/lindenmayer_systems.py\<close>\<close>

text \<open>
  The interpreter is the single Python function \<open>lindenmayer_system\<close>. It drives a
  \<open>turtle.Turtle\<close> and a \<open>turtle.Screen\<close> of the standard library. Both are modelled
  here as ideal objects: coordinates and angles are real numbers (the rounding of
  floating point is not modelled), a heading is kept in degrees in \<open>[0, 360)\<close> with
  \<open>0\<close> pointing east and angles growing counter-clockwise (the library's standard
  mode), and every call that changes an object is also appended to a log of that
  object. Strings are lists of 8-bit characters; the case of a character is the ASCII
  one.
\<close>

type_synonym cord = "real \<times> real"

type_synonym rgb = "int \<times> int \<times> int"

text \<open>\<open>variables_type = Dict[str, Union[str, Tuple[str, bool]]]\<close>: a dictionary keeps
  the order of insertion, so it is an association list (with distinct keys).\<close>

datatype properties = Str string | Tup string bool

type_synonym variables_type = "(string \<times> properties) list"

text \<open>\<open>fg_color\<close>: a plain colour, or a callable of \<open>(x, y, heading, initial depth,
  extreme coordinates, variable, index)\<close>.\<close>

datatype fg_color_type =
    StaticColor rgb
  | ColorFunction "real \<Rightarrow> real \<Rightarrow> real \<Rightarrow> int option \<Rightarrow> (cord \<times> cord) option \<Rightarrow> string \<Rightarrow> nat
                   \<Rightarrow> real \<times> real \<times> real"

datatype compression = Auto | Factor real

datatype window_size = FullScreen | Size int int

text \<open>The exceptions the function can raise. The first six are the \<open>ValueError\<close>s of
  the source, in the order of their \<open>raise\<close> statements.\<close>

datatype error =
    InvalidVariableName string
  | InvalidAxiomCharacter char
  | InvalidReplacementCharacter char string string
  | UnmatchedClosingBracket nat
  | VariableNotProvided char
  | InvalidCharacter char
  | AssertionError
  | IndexError
  | UnboundLocalError
  | ZeroDivisionError
  | TypeError

fun is_ValueError :: "error \<Rightarrow> bool" where
  "is_ValueError (InvalidVariableName e) = True"
| "is_ValueError (InvalidAxiomCharacter e) = True"
| "is_ValueError (InvalidReplacementCharacter e3 e2 e1) = True"
| "is_ValueError (UnmatchedClosingBracket index) = True"
| "is_ValueError (VariableNotProvided char) = True"
| "is_ValueError (InvalidCharacter char) = True"
| "is_ValueError AssertionError = False"
| "is_ValueError IndexError = False"
| "is_ValueError UnboundLocalError = False"
| "is_ValueError ZeroDivisionError = False"
| "is_ValueError TypeError = False"

subsection \<open>The turtle\<close>

datatype turtle_op =
    Hideturtle
  | Seth real
  | Penup
  | Pendown
  | Goto real real
  | Forward real
  | TurnLeft real
  | TurnRight real
  | Color int int int
  | Speed int

text \<open>\<open>tlog\<close> is the log of the calls made on the turtle, oldest first; \<open>reached\<close> lists
  the positions the turtle arrived at by \<open>forward\<close>, oldest first; \<open>lines\<close> are the
  segments it has drawn, which are the movements made with the pen down.\<close>

record turtle =
  tpos :: cord
  theading :: real
  isdown :: bool
  tlog :: "turtle_op list"
  reached :: "cord list"
  lines :: "(cord \<times> cord) list"

text \<open>Python's \<open>x % m\<close> on floats, for a positive \<open>m\<close>.\<close>

definition py_mod :: "real \<Rightarrow> real \<Rightarrow> real" where
  "py_mod x m = x - m * of_int \<lfloor>x / m\<rfloor>"

definition Turtle :: turtle where
  "Turtle = \<lparr>tpos = (0, 0), theading = 0, isdown = True, tlog = [], reached = [],
              lines = []\<rparr>"

definition hideturtle :: "turtle \<Rightarrow> turtle" where
  "hideturtle t = t\<lparr>tlog := tlog t @ [Hideturtle]\<rparr>"

definition seth :: "real \<Rightarrow> turtle \<Rightarrow> turtle" where
  "seth a t = t\<lparr>theading := py_mod a 360, tlog := tlog t @ [Seth a]\<rparr>"

definition penup :: "turtle \<Rightarrow> turtle" where
  "penup t = t\<lparr>isdown := False, tlog := tlog t @ [Penup]\<rparr>"

definition pendown :: "turtle \<Rightarrow> turtle" where
  "pendown t = t\<lparr>isdown := True, tlog := tlog t @ [Pendown]\<rparr>"

definition goto :: "cord \<Rightarrow> turtle \<Rightarrow> turtle" where
  "goto p t =
     t\<lparr>tpos := p, tlog := tlog t @ [Goto (fst p) (snd p)],
       lines := (if isdown t then lines t @ [(tpos t, p)] else lines t)\<rparr>"

definition forward :: "real \<Rightarrow> turtle \<Rightarrow> turtle" where
  "forward d t =
     (let p = (fst (tpos t) + d * cos (theading t * pi / 180),
               snd (tpos t) + d * sin (theading t * pi / 180))
      in t\<lparr>tpos := p, tlog := tlog t @ [Forward d], reached := reached t @ [p],
           lines := (if isdown t then lines t @ [(tpos t, p)] else lines t)\<rparr>)"

definition left :: "real \<Rightarrow> turtle \<Rightarrow> turtle" where
  "left a t = t\<lparr>theading := py_mod (theading t + a) 360, tlog := tlog t @ [TurnLeft a]\<rparr>"

definition right :: "real \<Rightarrow> turtle \<Rightarrow> turtle" where
  "right a t = t\<lparr>theading := py_mod (theading t - a) 360, tlog := tlog t @ [TurnRight a]\<rparr>"

definition color :: "rgb \<Rightarrow> turtle \<Rightarrow> turtle" where
  "color c t = (case c of (r, g, b) \<Rightarrow> t\<lparr>tlog := tlog t @ [Color r g b]\<rparr>)"

definition speed :: "int \<Rightarrow> turtle \<Rightarrow> turtle" where
  "speed n t = t\<lparr>tlog := tlog t @ [Speed n]\<rparr>"

subsection \<open>The screen\<close>

text \<open>The calls on the screen, on the module (\<open>tracer\<close>, \<open>update\<close>, \<open>print\<close>) and on the
  text turtle, which only writes messages.\<close>

datatype screen_op =
    Title string
  | Iconbitmap string
  | Colormode int
  | Bgcolor int int int
  | Tkraise
  | Tracer int int
  | Setup window_size
  | ScreensizeWidth real
  | ScreensizeHeight real
  | Update
  | Exitonclick
  | TextTurtle int int int
  | TextWrite string
  | TextClear
  | Print string

record screen =
  window_width :: int
  window_height :: int
  slog :: "screen_op list"

text \<open>What the process runs on: the size of the display, which \<open>Screen()\<close> and a
  full-screen \<open>setup\<close> read, and \<open>os.path.isfile\<close>.\<close>

record host =
  display :: "int \<times> int"
  isfile :: "string \<Rightarrow> bool"

definition screen_do :: "screen_op \<Rightarrow> screen \<Rightarrow> screen" where
  "screen_do e s = s\<lparr>slog := slog s @ [e]\<rparr>"

text \<open>\<open>Screen()\<close> opens a window of half the display's width and three quarters of its
  height (the library's defaults).\<close>

definition Screen :: "host \<Rightarrow> screen" where
  "Screen h = \<lparr>window_width = fst (display h) div 2,
               window_height = (snd (display h) * 3) div 4, slog = []\<rparr>"

definition screen_setup :: "host \<Rightarrow> window_size \<Rightarrow> screen \<Rightarrow> screen" where
  "screen_setup h ws s =
     (case ws of
        FullScreen \<Rightarrow>
          s\<lparr>window_width := fst (display h), window_height := snd (display h),
            slog := slog s @ [Setup ws]\<rparr>
      | Size w hgt \<Rightarrow>
          s\<lparr>window_width := w, window_height := hgt, slog := slog s @ [Setup ws]\<rparr>)"

subsection \<open>The parameters of a call and its result\<close>

text \<open>The parameters of \<open>lindenmayer_system\<close> but \<open>_turtle\<close> and \<open>_screen\<close>, which are
  part of the state below, and \<open>__initial_call\<close>, which selects the function of the
  model.\<close>

record call =
  axiom :: string
  vars :: variables_type
  depth :: int
  angle :: real
  instant_draw :: bool
  fg_color :: fg_color_type
  bg_color :: rgb
  compression_factor :: compression
  step_length :: real
  initial_window_size :: "window_size option"
  initial_angle :: real
  system_center_cords :: cord
  mainloop :: bool
  screen_icon :: "string option"
  initial_depth :: "int option"
  static_color :: "bool option"
  no_draw :: bool
  extrem_cords :: "(cord \<times> cord) option"

text \<open>The objects a call works on, and the warnings issued so far (each warning
  quotes the axiom it was raised for).\<close>

record world =
  turtle :: turtle
  screen :: screen
  warned :: "string list"

datatype 'a outcome = Raised error world | Returned 'a world

section \<open>Validation (lines 116 to 129)\<close>

text \<open>A string is a list of characters with code points below 256. On these, \<open>isupper\<close>,
  \<open>islower\<close> and \<open>isalpha\<close> of a one-character string are as follows: the letters
  \<open>A\<close> to \<open>Z\<close> and the capital letters of Latin-1 (192 to 222 but the multiplication sign
  215) are upper case; \<open>a\<close> to \<open>z\<close>, the ordinal indicators 170 and 186, the micro sign 181
  and the small letters of Latin-1 (223 to 255 but the division sign 247) are lower
  case; a character is alphabetic iff it is one of the two.\<close>

definition char_isupper :: "char \<Rightarrow> bool" where
  "char_isupper c =
     (let n = (of_char c :: nat)
      in (65 \<le> n \<and> n \<le> 90) \<or> (192 \<le> n \<and> n \<le> 214) \<or> (216 \<le> n \<and> n \<le> 222))"

definition char_islower :: "char \<Rightarrow> bool" where
  "char_islower c =
     (let n = (of_char c :: nat)
      in (97 \<le> n \<and> n \<le> 122) \<or> n = 170 \<or> n = 181 \<or> n = 186 \<or>
         (223 \<le> n \<and> n \<le> 246) \<or> (248 \<le> n \<and> n \<le> 255))"

definition char_isalpha :: "char \<Rightarrow> bool" where
  "char_isalpha c = (char_isupper c \<or> char_islower c)"

text \<open>\<open>str.isupper\<close>: some character is cased, and no cased character is lower case.\<close>

definition str_isupper :: "string \<Rightarrow> bool" where
  "str_isupper s = (list_ex char_isupper s \<and> \<not> list_ex char_islower s)"

text \<open>\<open>c in vars.keys() or c in '[]+-'\<close>\<close>

definition in_alphabet :: "string list \<Rightarrow> char \<Rightarrow> bool" where
  "in_alphabet keys c = ([c] \<in> set keys \<or> c \<in> set ''[]+-'')"

text \<open>Line 118: the first key that is not one upper-case letter.\<close>

fun check_variable_names :: "string list \<Rightarrow> string option" where
  "check_variable_names [] = None"
| "check_variable_names (var # rest) =
     (if \<not> (length var = 1 \<and> str_isupper var) then Some var
      else check_variable_names rest)"

text \<open>Line 121: the first character of the axiom outside the alphabet.\<close>

fun check_axiom :: "string list \<Rightarrow> string \<Rightarrow> char option" where
  "check_axiom keys [] = None"
| "check_axiom keys (c # cs) =
     (if \<not> in_alphabet keys c then Some c else check_axiom keys cs)"

text \<open>Line 124, the inner \<open>any\<close>: \<open>e3\<close> is assigned at every character that is not a
  key, also at a bracket or a sign.\<close>

fun scan_replacement :: "string list \<Rightarrow> char option \<Rightarrow> string \<Rightarrow> bool \<times> char option" where
  "scan_replacement keys e3 [] = (False, e3)"
| "scan_replacement keys e3 (c # cs) =
     (if [c] \<in> set keys then scan_replacement keys e3 cs
      else if c \<in> set ''[]+-'' then scan_replacement keys (Some c) cs
      else (True, Some c))"

text \<open>Line 126: the message reads \<open>e3\<close>, \<open>e2\<close> and \<open>e1\<close>; a name that was never
  assigned cannot be read.\<close>

fun replacement_error :: "char option \<Rightarrow> string option \<Rightarrow> string option \<Rightarrow> error" where
  "replacement_error (Some e3) (Some e2) (Some e1) = InvalidReplacementCharacter e3 e2 e1"
| "replacement_error e3 e2 e1 = UnboundLocalError"

text \<open>Lines 124 and 125, the outer \<open>any\<close>. The pair \<open>(k, [i[0], i][isinstance(i, str)])\<close>
  evaluates \<open>i[0]\<close> for a string \<open>i\<close> too, which raises for the empty string.\<close>

fun check_replacements ::
  "string list \<Rightarrow> string option \<Rightarrow> string option \<Rightarrow> char option \<Rightarrow> variables_type \<Rightarrow> error option"
where
  "check_replacements keys e1 e2 e3 [] = None"
| "check_replacements keys e1 e2 e3 ((k, Str []) # rest) = Some IndexError"
| "check_replacements keys e1 e2 e3 ((k, i) # rest) =
     (let repl = (case i of Str s \<Rightarrow> s | Tup r d \<Rightarrow> r) in
      if k = [] then Some (replacement_error e3 e2 (Some k))
      else if repl = [] then Some (replacement_error e3 (Some repl) (Some k))
      else (case scan_replacement keys e3 repl of
              (True, e3') \<Rightarrow> Some (replacement_error e3' (Some repl) (Some k))
            | (False, e3') \<Rightarrow> check_replacements keys (Some k) (Some repl) e3' rest))"

definition validate :: "call \<Rightarrow> error option" where
  "validate c =
     (let keys = map fst (vars c) in
      case check_variable_names keys of
        Some e \<Rightarrow> Some (InvalidVariableName e)
      | None \<Rightarrow>
          (case check_axiom keys (axiom c) of
             Some e \<Rightarrow> Some (InvalidAxiomCharacter e)
           | None \<Rightarrow>
               (case check_replacements keys None None None (vars c) of
                  Some err \<Rightarrow> Some err
                | None \<Rightarrow>
                    if step_length c \<noteq> 0 \<and> compression_factor c \<noteq> Factor 0 then None
                    else Some AssertionError)))"

section \<open>The interpreter\<close>

text \<open>Lines 110 to 115: the turtle is hidden (when drawing instantly), turned so that an
  initial angle of 0 points north, and moved with the pen up to the centre.\<close>

definition setup_turtle :: "call \<Rightarrow> turtle \<Rightarrow> turtle" where
  "setup_turtle c t =
     pendown (goto (system_center_cords c) (penup (seth (py_mod (initial_angle c + 90) 360)
       (if instant_draw c then hideturtle t else t))))"

text \<open>Lines 243 to 246, with the \<open>else\<close> of line 279: the variables are searched in the
  order of the dictionary; a plain replacement is drawn only at index 0.\<close>

fun find_variable :: "variables_type \<Rightarrow> nat \<Rightarrow> char \<Rightarrow> (string \<times> bool) option" where
  "find_variable [] var_index char = None"
| "find_variable ((var, properties) # rest) var_index char =
     (let (replacement, draw) =
            (case properties of Str s \<Rightarrow> (s, var_index = 0) | Tup r d \<Rightarrow> (r, d))
      in if var = [char] then Some (replacement, draw)
         else find_variable rest (Suc var_index) char)"

text \<open>Lines 257 to 259 and lines 276 to 277: the running extremes, as
  \<open>((min_x, min_y), (max_x, max_y))\<close>.\<close>

definition extend :: "cord \<times> cord \<Rightarrow> cord \<Rightarrow> cord \<times> cord" where
  "extend bb p =
     (case bb of ((min_x, min_y), (max_x, max_y)) \<Rightarrow>
        ((min (fst p) min_x, min (snd p) min_y), (max (fst p) max_x, max (snd p) max_y)))"

definition merge :: "cord \<times> cord \<Rightarrow> cord \<times> cord \<Rightarrow> cord \<times> cord" where
  "merge bb ret =
     (case bb of ((min_x, min_y), (max_x, max_y)) \<Rightarrow>
        ((min (fst (fst ret)) min_x, min (snd (fst ret)) min_y),
         (max (fst (snd ret)) max_x, max (snd (snd ret)) max_y)))"

text \<open>\<open>int(x)\<close> truncates towards zero.\<close>

definition py_int :: "real \<Rightarrow> int" where
  "py_int x = (if x < 0 then \<lceil>x\<rceil> else \<lfloor>x\<rfloor>)"

text \<open>\<open>not __static_color\<close>: \<open>None\<close> counts as false.\<close>

definition is_static :: "call \<Rightarrow> bool" where
  "is_static c = (static_color c = Some True)"

text \<open>Lines 261 to 266: the canvas grows when the turtle comes within 20 units of the
  window's edge.\<close>

definition resize :: "cord \<Rightarrow> screen \<Rightarrow> screen" where
  "resize p s =
     (if \<bar>fst p\<bar> + 20 \<ge> of_int (window_width s div 2)
        then screen_do (ScreensizeWidth (\<bar>fst p\<bar> * 2 + 20)) s
      else if \<bar>snd p\<bar> + 20 \<ge> of_int (window_height s div 2)
        then screen_do (ScreensizeHeight (\<bar>snd p\<bar> * 2 + 20)) s
      else s)"

text \<open>Lines 249 to 266: one forward movement. Calling a colour that is not a function
  raises.\<close>

definition move_forward :: "call \<Rightarrow> nat \<Rightarrow> string \<Rightarrow> cord \<times> cord \<Rightarrow> world \<Rightarrow> (cord \<times> cord) outcome" where
  "move_forward c index var bb w =
     (let t = turtle w;
          coloured =
            (if \<not> is_static c \<and> \<not> no_draw c then
               (case fg_color c of
                  ColorFunction f \<Rightarrow>
                    (case f (fst (tpos t)) (snd (tpos t)) (theading t) (initial_depth c)
                            (extrem_cords c) var index of
                       (r, g, b) \<Rightarrow> Some (color (py_int r, py_int g, py_int b) t))
                | StaticColor col \<Rightarrow> None)
             else Some t)
      in case coloured of
           None \<Rightarrow> Raised TypeError w
         | Some t1 \<Rightarrow>
             (let t2 = forward (step_length c) t1;
                  bb' = (if extrem_cords c = None then extend bb (tpos t2) else bb);
                  s' = (if compression_factor c \<noteq> Auto \<and> \<not> no_draw c
                        then resize (tpos t2) (screen w) else screen w)
              in Returned bb' (w\<lparr>turtle := t2, screen := s'\<rparr>)))"

text \<open>Lines 232 to 237: the state popped by a closing bracket is restored.\<close>

definition restore :: "call \<Rightarrow> cord \<Rightarrow> real \<Rightarrow> turtle \<Rightarrow> turtle" where
  "restore c stored_pos stored_head t =
     (let t1 = seth stored_head (goto stored_pos (penup t))
      in if \<not> no_draw c then pendown t1 else t1)"

text \<open>Lines 218 to 220: with \<open>__no_draw\<close> the pen is lifted.\<close>

definition suppress_drawing :: "call \<Rightarrow> turtle \<Rightarrow> turtle" where
  "suppress_drawing c t = (if no_draw c then penup (speed 0 t) else t)"

text \<open>Lines 109 to 115 and 218 to 220 in a call that is not the initial one: the turtle is
  set up only at the top level of a dry run.\<close>

definition begin_call :: "call \<Rightarrow> world \<Rightarrow> world" where
  "begin_call c w =
     w\<lparr>turtle := suppress_drawing c
          (if no_draw c \<and> Some (depth c) = initial_depth c then setup_turtle c (turtle w)
           else turtle w)\<rparr>"

text \<open>Lines 292 to 296: the warning of a call whose list of stored states is not empty
  at its end.\<close>

definition warn_unclosed :: "call \<Rightarrow> (cord \<times> real) list \<Rightarrow> world \<Rightarrow> world" where
  "warn_unclosed c stored_states w =
     (if stored_states \<noteq> [] then w\<lparr>warned := warned w @ [axiom c]\<rparr> else w)"

text \<open>Line 298: the extremes that were passed in, or else the ones this call found.\<close>

definition returned_cords :: "call \<Rightarrow> cord \<times> cord \<Rightarrow> cord \<times> cord" where
  "returned_cords c bb = (case extrem_cords c of None \<Rightarrow> bb | Some ex \<Rightarrow> ex)"

text \<open>
  \<open>parse_axiom\<close> is the loop of lines 226 to 282 over the characters of the axiom, from
  the character at \<open>index\<close> on; \<open>stored_states\<close> has its newest state first.
  \<open>lindenmayer_system_rec\<close> is a call with \<open>__initial_call = False\<close>, as the function
  makes them on itself (lines 167 and 269): lines 107 to 115 and 218 to 299, where
  the list \<open>stored_states\<close> and the extremes are created anew (lines 223 and 224).
\<close>

function parse_axiom ::
    "call \<Rightarrow> nat \<Rightarrow> string \<Rightarrow> (cord \<times> real) list \<Rightarrow> cord \<times> cord \<Rightarrow> world
      \<Rightarrow> ((cord \<times> real) list \<times> (cord \<times> cord)) outcome"
  and lindenmayer_system_rec :: "call \<Rightarrow> world \<Rightarrow> (cord \<times> cord) outcome"
where
  "parse_axiom c index [] stored_states bb w = Returned (stored_states, bb) w"
| "parse_axiom c index (char # rest) stored_states bb w =
     (if char = CHR ''['' then
        parse_axiom c (Suc index) rest
          ((tpos (turtle w), theading (turtle w)) # stored_states) bb w
      else if char = CHR '']'' then
        (case stored_states of
           [] \<Rightarrow> Raised (UnmatchedClosingBracket index) w
         | (stored_pos, stored_head) # states \<Rightarrow>
             parse_axiom c (Suc index) rest states bb
               (w\<lparr>turtle := restore c stored_pos stored_head (turtle w)\<rparr>))
      else if char = CHR ''+'' then
        parse_axiom c (Suc index) rest stored_states bb
          (w\<lparr>turtle := left (angle c) (turtle w)\<rparr>)
      else if char = CHR ''-'' then
        parse_axiom c (Suc index) rest stored_states bb
          (w\<lparr>turtle := right (angle c) (turtle w)\<rparr>)
      else if char_isalpha char \<and> char_isupper char then
        (case find_variable (vars c) 0 char of
           None \<Rightarrow> Raised (VariableNotProvided char) w
         | Some (replacement, draw) \<Rightarrow>
             if depth c = 0 then
               (if draw then
                  (case move_forward c index [char] bb w of
                     Raised e w' \<Rightarrow> Raised e w'
                   | Returned bb' w' \<Rightarrow> parse_axiom c (Suc index) rest stored_states bb' w')
                else parse_axiom c (Suc index) rest stored_states bb w)
             else
               (case lindenmayer_system_rec
                       (c\<lparr>axiom := replacement, depth := depth c - 1,
                          initial_window_size := None, screen_icon := None\<rparr>) w of
                  Raised e w' \<Rightarrow> Raised e w'
                | Returned ret w' \<Rightarrow>
                    parse_axiom c (Suc index) rest stored_states
                      (if extrem_cords c = None then merge bb ret else bb) w'))
      else Raised (InvalidCharacter char) w)"
| "lindenmayer_system_rec c w =
     (if depth c < 0 then Returned (tpos (turtle w), tpos (turtle w)) w
      else
        (case parse_axiom c 0 (axiom c) [] ((0, 0), (0, 0)) (begin_call c w) of
           Raised e w' \<Rightarrow> Raised e w'
         | Returned (stored_states, bb) w' \<Rightarrow>
             Returned (returned_cords c bb) (warn_unclosed c stored_states w')))"
  by pat_completeness auto
termination
  by (relation "inv_image (less_than <*lex*> less_than)
        (\<lambda>x. case x of
            Inl (c, index, cs, stored_states, bb, w) \<Rightarrow>
              (if depth c < 0 then 1 else 2 * nat (depth c) + 1, length cs)
          | Inr (c, w) \<Rightarrow> (if depth c < 0 then 0 else 2 * nat (depth c) + 2, 0))")
     auto

section \<open>The top-level call\<close>

text \<open>Lines 100 to 104: a screen is opened when none is passed.\<close>

definition open_screen :: "host \<Rightarrow> string option \<Rightarrow> screen" where
  "open_screen h icon =
     (let s = screen_do (Title ''Lindenmayer System'') (Screen h)
      in case icon of
           None \<Rightarrow> s
         | Some path \<Rightarrow> if isfile h path then screen_do (Iconbitmap path) s else s)"

text \<open>Lines 131 to 161: colours, the text turtle, the speed and the window. The call
  continues with \<open>__static_color\<close>, \<open>__extrem_cords\<close> and \<open>__initial_depth\<close> set.\<close>

definition configure :: "host \<Rightarrow> call \<Rightarrow> world \<Rightarrow> call \<times> world" where
  "configure h c w =
     (let s1 = screen_do Tkraise
                 (screen_do (case bg_color c of (r, g, b) \<Rightarrow> Bgcolor r g b)
                    (screen_do (Colormode 255) (screen w)));
          s2 = screen_do
                 (case bg_color c of (r, g, b) \<Rightarrow> TextTurtle (abs (r - 255)) (abs (g - 255)) (abs (b - 255))) s1;
          static = (case fg_color c of StaticColor col \<Rightarrow> True | ColorFunction f \<Rightarrow> False);
          t1 = (case fg_color c of
                  StaticColor col \<Rightarrow> color col (turtle w)
                | ColorFunction f \<Rightarrow> turtle w);
          idepth = (case initial_depth c of None \<Rightarrow> depth c | Some d \<Rightarrow> d);
          t2 = (if instant_draw c then speed 0 t1 else t1);
          s3 = (if instant_draw c then screen_do (Tracer 0 0) s2 else screen_do (Tracer 1 1) s2);
          s4 = (case initial_window_size c of
                  Some ws \<Rightarrow> screen_setup h ws s3
                | None \<Rightarrow> s3)
      in (c\<lparr>static_color := Some static, extrem_cords := None, initial_depth := Some idepth\<rparr>,
          w\<lparr>turtle := t2, screen := s4\<rparr>))"

text \<open>\<open>max(a, b, key=abs)\<close> and \<open>min(a, b, key=abs)\<close>: the element itself is returned,
  with its sign, and the first one when the keys are equal.\<close>

definition max_key_abs :: "real \<Rightarrow> real \<Rightarrow> real" where
  "max_key_abs a b = (if \<bar>b\<bar> > \<bar>a\<bar> then b else a)"

definition min_key_abs :: "real \<Rightarrow> real \<Rightarrow> real" where
  "min_key_abs a b = (if \<bar>b\<bar> < \<bar>a\<bar> then b else a)"

text \<open>Lines 172 to 177; a division by zero raises.\<close>

definition scale_factor :: "screen \<Rightarrow> cord \<Rightarrow> cord \<Rightarrow> real \<Rightarrow> real option" where
  "scale_factor s min_cord max_cord step =
     (let x = max_key_abs (fst min_cord) (fst max_cord);
          y = max_key_abs (snd min_cord) (snd max_cord)
      in if x = 0 \<or> y = 0 then None
         else Some (min_key_abs (of_int (window_width s) / x) (of_int (window_height s) / y)
                      * (9 / 10) * (if step > 0 then 1 else - 1)))"

definition rnd_from_zero :: "real \<Rightarrow> int" where
  "rnd_from_zero x = (if x < 0 then \<lfloor>x\<rfloor> else \<lceil>x\<rceil>)"

text \<open>Line 167: the dry run is a call on a new turtle (\<open>_turtle = None\<close>), with a black
  colour, a compression factor of 1 and \<open>__no_draw\<close> set.\<close>

definition dry_run :: "call \<Rightarrow> world \<Rightarrow> (cord \<times> cord) outcome" where
  "dry_run c w =
     lindenmayer_system_rec
       (c\<lparr>fg_color := StaticColor (0, 0, 0), bg_color := (0, 0, 0),
          compression_factor := Factor 1, initial_window_size := None, screen_icon := None,
          static_color := Some True, no_draw := True, extrem_cords := None\<rparr>)
       (w\<lparr>turtle := Turtle\<rparr>)"

text \<open>Lines 164 to 212. The turtle of the dry run is dropped; the call goes on with its
  own turtle, a scaled step length and fixed extremes.\<close>

definition auto_adjust :: "call \<Rightarrow> world \<Rightarrow> call outcome" where
  "auto_adjust c w =
     (let w1 = w\<lparr>screen := screen_do (Tracer 0 0)
                   (screen_do (TextWrite ''Calculating compression factor...'') (screen w))\<rparr>
      in case dry_run c w1 of
           Raised e wd \<Rightarrow> Raised e (wd\<lparr>turtle := turtle w\<rparr>)
         | Returned (min_cord, max_cord) wd \<Rightarrow>
             (let w2 = wd\<lparr>turtle := turtle w\<rparr>
              in case scale_factor (screen w2) min_cord max_cord (step_length c) of
                   None \<Rightarrow> Raised ZeroDivisionError w2
                 | Some factor \<Rightarrow>
                     (let x_dis = fst max_cord - fst min_cord;
                          y_dis = snd max_cord - snd min_cord;
                          starting_point = (- (fst min_cord + x_dis / 2) * factor,
                                            - (snd min_cord + y_dis / 2) * factor);
                          s3 = screen_do TextClear (screen w2);
                          t3 = pendown (goto starting_point (penup (turtle w2)));
                          ex_x = rnd_from_zero (fst starting_point * 2);
                          ex_y = rnd_from_zero (snd starting_point);
                          ex = ((of_int ex_x, of_int ex_y), (of_int (- ex_x), of_int (- ex_y)));
                          s4 = screen_do (Print ''Finished auto-adjusting compression factor.'') s3;
                          s5 = (if \<not> instant_draw c then screen_do (Tracer 1 1) s4 else s4)
                      in Returned (c\<lparr>step_length := step_length c * factor,
                                     extrem_cords := Some ex\<rparr>)
                                  (w2\<lparr>turtle := t3, screen := s5\<rparr>))))"

text \<open>Line 214: \<open>step_length *= compression_factor ** __initial_depth\<close>.\<close>

definition compress :: "call \<Rightarrow> real \<Rightarrow> call" where
  "compress c f =
     c\<lparr>step_length := step_length c *
          f powi (case initial_depth c of None \<Rightarrow> depth c | Some d \<Rightarrow> d)\<rparr>"

text \<open>Lines 215 to 299 of the top-level call: the loop, the end of the drawing, the
  warning and the result.\<close>

definition draw :: "call \<Rightarrow> world \<Rightarrow> (cord \<times> cord) outcome" where
  "draw c w =
     (let s1 = screen_do (Print ''Started drawing.'') (screen w);
          s2 = (if instant_draw c then screen_do (TextWrite ''Drawing...'') s1 else s1);
          t1 = suppress_drawing c (turtle w)
      in case parse_axiom c 0 (axiom c) [] ((0, 0), (0, 0)) (w\<lparr>turtle := t1, screen := s2\<rparr>) of
           Raised e w' \<Rightarrow> Raised e w'
         | Returned (stored_states, bb) w' \<Rightarrow>
             (let s3 = (if instant_draw c then screen_do Update (screen_do TextClear (screen w'))
                        else screen w');
                  s4 = screen_do (Print ''Finished drawing.'') s3;
                  s5 = (if mainloop c then screen_do Exitonclick s4 else s4)
              in Returned (returned_cords c bb)
                   (warn_unclosed c stored_states (w'\<lparr>screen := s5\<rparr>))))"

text \<open>
  \<open>lindenmayer_system\<close> is the call with \<open>__initial_call = True\<close>: the function as a
  caller uses it. \<open>_turtle\<close> and \<open>_screen\<close> may be \<open>None\<close>; \<open>ws\<close> are the warnings issued
  before the call.
\<close>

definition lindenmayer_system ::
    "host \<Rightarrow> call \<Rightarrow> turtle option \<Rightarrow> screen option \<Rightarrow> string list \<Rightarrow> (cord \<times> cord) outcome" where
  "lindenmayer_system h c t0 s0 ws =
     (let s = (case s0 of None \<Rightarrow> open_screen h (screen_icon c) | Some s \<Rightarrow> s);
          t = (case t0 of None \<Rightarrow> Turtle | Some t \<Rightarrow> t);
          w = \<lparr>turtle = t, screen = s, warned = ws\<rparr>
      in if depth c < 0 then Returned (tpos t, tpos t) w
         else
           (let w1 = w\<lparr>turtle := setup_turtle c t\<rparr>
            in case validate c of
                 Some e \<Rightarrow> Raised e w1
               | None \<Rightarrow>
                   (case configure h c w1 of
                      (c1, w2) \<Rightarrow>
                        (case (case compression_factor c1 of
                                 Auto \<Rightarrow> auto_adjust c1 w2
                               | Factor f \<Rightarrow> Returned (compress c1 f) w2) of
                           Raised e w' \<Rightarrow> Raised e w'
                         | Returned c2 w3 \<Rightarrow> draw c2 w3))))"

text \<open>The defaults of the signature, for an axiom, variables, a depth and an angle.\<close>

definition default_call :: "string \<Rightarrow> variables_type \<Rightarrow> int \<Rightarrow> real \<Rightarrow> call" where
  "default_call a v d ang =
     \<lparr>axiom = a, vars = v, depth = d, angle = ang, instant_draw = True,
      fg_color = StaticColor (255, 255, 255), bg_color = (0, 0, 0),
      compression_factor = Auto, step_length = 10, initial_window_size = None,
      initial_angle = 0, system_center_cords = (0, 0), mainloop = True,
      screen_icon = None, initial_depth = None, static_color = None, no_draw = False,
      extrem_cords = None\<rparr>"

section \<open>Notions used in the statements\<close>

text \<open>A host for the examples: a display of 1920 by 1080 pixels and no icon file.\<close>

definition example_host :: host where
  "example_host = \<lparr>display = (1920, 1080), isfile = (\<lambda>path. False)\<rparr>"

text \<open>The smallest rectangle with sides along the axes that contains the origin
  \<open>(0, 0)\<close> and the points \<open>ps\<close>, as its lower left and upper right corner.\<close>

definition box_of :: "cord list \<Rightarrow> cord \<times> cord" where
  "box_of ps =
     ((Min (insert 0 (fst ` set ps)), Min (insert 0 (snd ` set ps))),
      (Max (insert 0 (fst ` set ps)), Max (insert 0 (snd ` set ps))))"

text \<open>The rectangle of claim C7, in the words of the claim: the component-wise minimum
  and maximum over the points alone.\<close>

definition endpoints_rectangle :: "cord list \<Rightarrow> cord \<times> cord" where
  "endpoints_rectangle ps =
     ((Min (fst ` set ps), Min (snd ` set ps)), (Max (fst ` set ps), Max (snd ` set ps)))"

text \<open>The variable a character of the axiom stands for, with its replacement and its
  draws-forward flag, as the loop looks it up (lines 242 to 246).\<close>

definition variable_of :: "variables_type \<Rightarrow> char \<Rightarrow> (string \<times> bool) option" where
  "variable_of vs ch = (if char_isupper ch then find_variable vs 0 ch else None)"

text \<open>The number of draws-forward variables in the expansion of a string to depth \<open>n\<close>:
  at depth 0 a variable counts if its flag is set, above that its replacement is
  counted one level lower.\<close>

fun forward_count :: "variables_type \<Rightarrow> nat \<Rightarrow> string \<Rightarrow> nat" where
  "forward_count vs n [] = 0"
| "forward_count vs 0 (ch # s) =
     (case variable_of vs ch of Some (r, True) \<Rightarrow> 1 | _ \<Rightarrow> 0) + forward_count vs 0 s"
| "forward_count vs (Suc n) (ch # s) =
     (case variable_of vs ch of Some (r, d) \<Rightarrow> forward_count vs n r | None \<Rightarrow> 0)
       + forward_count vs (Suc n) s"

fun replacement_of :: "properties \<Rightarrow> string" where
  "replacement_of (Str s) = s"
| "replacement_of (Tup r d) = r"

text \<open>Every replacement holds at least two draws-forward variables; a string holds at
  least one variable; the number of variables of a string.\<close>

definition doubling :: "variables_type \<Rightarrow> bool" where
  "doubling vs = list_all (\<lambda>(k, p). 2 \<le> forward_count vs 0 (replacement_of p)) vs"

definition has_variable :: "variables_type \<Rightarrow> string \<Rightarrow> bool" where
  "has_variable vs s = list_ex (\<lambda>ch. variable_of vs ch \<noteq> None) s"

definition var_count :: "variables_type \<Rightarrow> string \<Rightarrow> nat" where
  "var_count vs s = length (filter (\<lambda>ch. variable_of vs ch \<noteq> None) s)"

text \<open>The call of the example \<open>F[+F]-F\<close>: depth 0, the step length 10 of the signature, an
  angle of 90 and a compression factor of 1.\<close>

definition bracket_call :: call where
  "bracket_call =
     (default_call ''F[+F]-F'' [(''F'', Str ''F'')] 0 90)\<lparr>compression_factor := Factor 1\<rparr>"

section \<open>Facts about the definitions\<close>

lemmas char_defs =
  char_isupper_def char_islower_def char_isalpha_def str_isupper_def in_alphabet_def

subsection \<open>Validation\<close>

lemma validate_empty_replacement:
  "validate (default_call ''F'' [(''F'', Str [])] 1 90) = Some IndexError"
  by (simp add: validate_def default_call_def char_defs)

text \<open>
  Claim C1 (validation raises a \<open>ValueError\<close> exactly for an invalid grammar, and for an
  empty replacement names the replacement and its variable). The code reaches for this
  and misses: for the variables \<open>{"F": ""}\<close> the pair of line 125 reads \<open>i[0]\<close> of the
  empty string, and the call \<open>lindenmayer_system("F", {"F": ""}, 1, 90)\<close> ends in an
  \<open>IndexError\<close>, which is not a \<open>ValueError\<close>, after the turtle was set up.
\<close>

theorem empty_replacement_raises_IndexError:
  "lindenmayer_system example_host (default_call ''F'' [(''F'', Str [])] 1 90) None None [] =
     Raised IndexError
       \<lparr>turtle = setup_turtle (default_call ''F'' [(''F'', Str [])] 1 90) Turtle,
        screen = open_screen example_host None, warned = []\<rparr>
   \<and> \<not> is_ValueError IndexError"
  unfolding lindenmayer_system_def
  by (simp add: validate_empty_replacement Let_def) (simp add: default_call_def)

subsection \<open>The draws-forward flag\<close>

lemma find_variable_index:
  "distinct (map fst vs) \<Longrightarrow> i < length vs \<Longrightarrow> vs ! i = ([ch], p) \<Longrightarrow>
   find_variable vs k ch =
     Some (case p of Str s \<Rightarrow> (s, k + i = 0) | Tup r d \<Rightarrow> (r, d))"
proof (induction vs arbitrary: i k)
  case Nil
  then show ?case by simp
next
  case (Cons a vs)
  obtain var props where a: "a = (var, props)" by (cases a)
  show ?case
  proof (cases i)
    case 0
    with Cons.prems a show ?thesis by (simp split: properties.splits)
  next
    case (Suc j)
    with Cons.prems have j: "j < length vs" "vs ! j = ([ch], p)" by simp_all
    then have "[ch] \<in> set (map fst vs)" by (metis fst_conv nth_mem image_eqI set_map)
    with Cons.prems a have neq: "var \<noteq> [ch]" by auto
    from Cons.prems j have "find_variable vs (Suc k) ch =
       Some (case p of Str s \<Rightarrow> (s, Suc k + j = 0) | Tup r d \<Rightarrow> (r, d))"
      by (intro Cons.IH) auto
    with neq a Suc show ?thesis by (simp split: properties.splits)
  qed
qed

text \<open>
  Claim C8: the variable at position \<open>i\<close> of the dictionary, when its value is a plain
  replacement string, is looked up with a draws-forward flag that is true iff \<open>i = 0\<close>
  (it is the first-declared variable); when its value is a pair, the flag of the pair
  is used, whatever the position.
\<close>

theorem draws_forward_flag:
  "distinct (map fst vs) \<Longrightarrow> i < length vs \<Longrightarrow>
   (vs ! i = ([ch], Str s) \<longrightarrow> find_variable vs 0 ch = Some (s, i = 0)) \<and>
   (vs ! i = ([ch], Tup r d) \<longrightarrow> find_variable vs 0 ch = Some (r, d))"
  using find_variable_index [of vs i ch _ 0] by auto

theorem draws_forward_flag_witness:
  "distinct (map fst [(''F'', Str ''FF''), (''X'', Str ''F+X''), (''Y'', Tup ''F'' True)]) \<and>
   find_variable [(''F'', Str ''FF''), (''X'', Str ''F+X''), (''Y'', Tup ''F'' True)] 0 CHR ''F''
     = Some (''FF'', True) \<and>
   find_variable [(''F'', Str ''FF''), (''X'', Str ''F+X''), (''Y'', Tup ''F'' True)] 0 CHR ''X''
     = Some (''F+X'', False) \<and>
   find_variable [(''F'', Str ''FF''), (''X'', Str ''F+X''), (''Y'', Tup ''F'' True)] 0 CHR ''Y''
     = Some (''F'', True)"
proof -
  let ?vs = "[(''F'', Str ''FF''), (''X'', Str ''F+X''), (''Y'', Tup ''F'' True)]"
  have d: "distinct (map fst ?vs)" by simp
  have "find_variable ?vs 0 CHR ''F'' = Some (''FF'', (0::nat) = 0)"
    using draws_forward_flag [OF d, of 0 "CHR ''F''" "''FF''"] by simp
  moreover have "find_variable ?vs 0 CHR ''X'' = Some (''F+X'', (1::nat) = 0)"
    using draws_forward_flag [OF d, of 1 "CHR ''X''" "''F+X''"] by simp
  moreover have "find_variable ?vs 0 CHR ''Y'' = Some (''F'', True)"
    using draws_forward_flag [OF d, of 2 "CHR ''Y''" _ "''F''" True] by simp
  ultimately show ?thesis using d by simp
qed

subsection \<open>A negative depth\<close>

text \<open>
  Claim C10: a call with \<open>depth < 0\<close>, also the top-level one, returns at once. Both
  corners of the result are the position of the turtle; the turtle and the screen are
  the ones passed in (or newly made), nothing was called on the turtle, and the
  grammar was not looked at: the statement holds for every axiom and all variables.
\<close>

theorem negative_depth_returns_at_once:
  "depth c < 0 \<Longrightarrow>
     lindenmayer_system h c t0 s0 ws =
       Returned (tpos (case t0 of None \<Rightarrow> Turtle | Some t \<Rightarrow> t),
                 tpos (case t0 of None \<Rightarrow> Turtle | Some t \<Rightarrow> t))
         \<lparr>turtle = (case t0 of None \<Rightarrow> Turtle | Some t \<Rightarrow> t),
          screen = (case s0 of None \<Rightarrow> open_screen h (screen_icon c) | Some s \<Rightarrow> s),
          warned = ws\<rparr>"
  unfolding lindenmayer_system_def by (simp only: Let_def if_True)

theorem negative_depth_returns_at_once_witness:
  "depth (default_call ''f]'' [(''ab'', Str [])] (- 1) 90) < 0 \<and>
   lindenmayer_system example_host (default_call ''f]'' [(''ab'', Str [])] (- 1) 90)
       (Some (Turtle\<lparr>tpos := (3, 4)\<rparr>)) (Some (Screen example_host)) [] =
     Returned ((3, 4), (3, 4))
       \<lparr>turtle = Turtle\<lparr>tpos := (3, 4)\<rparr>, screen = Screen example_host, warned = []\<rparr>"
proof -
  have d: "depth (default_call ''f]'' [(''ab'', Str [])] (- 1) 90) < 0"
    by (simp add: default_call_def)
  show ?thesis
    using d negative_depth_returns_at_once [OF d, of example_host
        "Some (Turtle\<lparr>tpos := (3, 4)\<rparr>)" "Some (Screen example_host)" "[]"]
    by simp
qed

subsection \<open>What happens before the validation\<close>

lemmas turtle_defs = Turtle_def hideturtle_def seth_def penup_def pendown_def goto_def
  forward_def left_def right_def color_def speed_def

lemma setup_turtle_log:
  "tlog (setup_turtle c t) =
     tlog t @ (if instant_draw c then [Hideturtle] else []) @
       [Seth (py_mod (initial_angle c + 90) 360), Penup,
        Goto (fst (system_center_cords c)) (snd (system_center_cords c)), Pendown]"
  by (simp add: setup_turtle_def turtle_defs)

lemma setup_turtle_draws_nothing:
  "lines (setup_turtle c t) = lines t \<and> reached (setup_turtle c t) = reached t"
  by (simp add: setup_turtle_def turtle_defs)

text \<open>
  Claim C4, as the code has it. The set-up of lines 109 to 115 comes before the validation of
  lines 116 to 129, so a rejected grammar leaves a turtle (the one passed in, or a new
  one) that was hidden (when drawing instantly), turned to \<open>(initial_angle + 90) % 360\<close>
  and moved, with the pen up, to the centre, with the pen put down again. Nothing else
  was called on the turtle: no forward movement was made, no line was drawn and no colour
  was set. A screen that was passed in is untouched; when none was passed in, a new
  screen was opened and given its title, and its icon if the file exists (lines 99 to
  103), and nothing else was called on it.
\<close>

theorem rejected_grammar_after_setup:
  "0 \<le> depth c \<Longrightarrow> validate c = Some e \<Longrightarrow>
   lindenmayer_system h c t0 s0 ws =
     Raised e
       \<lparr>turtle = setup_turtle c (case t0 of None \<Rightarrow> Turtle | Some t \<Rightarrow> t),
        screen = (case s0 of None \<Rightarrow> open_screen h (screen_icon c) | Some s \<Rightarrow> s),
        warned = ws\<rparr> \<and>
   tlog (setup_turtle c t) =
     tlog t @ (if instant_draw c then [Hideturtle] else []) @
       [Seth (py_mod (initial_angle c + 90) 360), Penup,
        Goto (fst (system_center_cords c)) (snd (system_center_cords c)), Pendown] \<and>
   lines (setup_turtle c t) = lines t \<and> reached (setup_turtle c t) = reached t \<and>
   tlog Turtle = [] \<and>
   slog (open_screen h (screen_icon c)) =
     Title ''Lindenmayer System'' #
       (case screen_icon c of
          None \<Rightarrow> []
        | Some path \<Rightarrow> if isfile h path then [Iconbitmap path] else [])"
  unfolding lindenmayer_system_def
  by (simp add: Let_def setup_turtle_log setup_turtle_draws_nothing Turtle_def open_screen_def
        screen_do_def Screen_def split: option.splits)

lemma validate_lower_case_axiom:
  "validate ((default_call ''f'' [(''F'', Str ''F'')] 1 90)\<lparr>system_center_cords := (5, 7)\<rparr>)
     = Some (InvalidAxiomCharacter CHR ''f'')"
  by (simp add: validate_def default_call_def char_defs)

theorem rejected_grammar_after_setup_witness:
  "lindenmayer_system example_host
     ((default_call ''f'' [(''F'', Str ''F'')] 1 90)\<lparr>system_center_cords := (5, 7)\<rparr>)
     None None [] =
   Raised (InvalidAxiomCharacter CHR ''f'')
     \<lparr>turtle = \<lparr>tpos = (5, 7), theading = 90, isdown = True,
                 tlog = [Hideturtle, Seth 90, Penup, Goto 5 7, Pendown],
                 reached = [], lines = []\<rparr>,
      screen = \<lparr>window_width = 960, window_height = 810,
                 slog = [Title ''Lindenmayer System'']\<rparr>,
      warned = []\<rparr>"
proof -
  let ?c = "(default_call ''f'' [(''F'', Str ''F'')] 1 90)\<lparr>system_center_cords := (5, 7)\<rparr>"
  have d: "0 \<le> depth ?c" by (simp add: default_call_def)
  have s: "setup_turtle ?c Turtle =
      \<lparr>tpos = (5, 7), theading = 90, isdown = True,
       tlog = [Hideturtle, Seth 90, Penup, Goto 5 7, Pendown], reached = [], lines = []\<rparr>"
    by (simp add: setup_turtle_def default_call_def turtle_defs py_mod_def)
  have o: "screen_icon ?c = None" "open_screen example_host None =
      \<lparr>window_width = 960, window_height = 810, slog = [Title ''Lindenmayer System'']\<rparr>"
    by (simp_all add: open_screen_def default_call_def screen_do_def Screen_def example_host_def)
  show ?thesis
    using rejected_grammar_after_setup [OF d validate_lower_case_axiom,
        where h = example_host and ?t0.0 = None and ?s0.0 = None and ws = "[]" and t = Turtle,
        THEN conjunct1]
    by (simp add: s o)
qed

text \<open>
  Claim C4 as stated (no cursor movement, heading change or pen-state change before the
  validation has completed) fails: for the axiom \<open>f\<close> the call raises, and the turtle
  that was passed in has moved to the centre \<open>(5, 7)\<close> and has been turned north.
\<close>

theorem renderer_changed_before_validation:
  "\<exists>w. lindenmayer_system example_host
          ((default_call ''f'' [(''F'', Str ''F'')] 1 90)\<lparr>system_center_cords := (5, 7)\<rparr>)
          (Some Turtle) (Some (Screen example_host)) [] =
        Raised (InvalidAxiomCharacter CHR ''f'') w \<and>
        tpos (turtle w) \<noteq> tpos Turtle \<and> theading (turtle w) \<noteq> theading Turtle \<and>
        tlog (turtle w) = [Hideturtle, Seth 90, Penup, Goto 5 7, Pendown]"
proof -
  let ?c = "(default_call ''f'' [(''F'', Str ''F'')] 1 90)\<lparr>system_center_cords := (5, 7)\<rparr>"
  have s: "setup_turtle ?c Turtle =
      \<lparr>tpos = (5, 7), theading = 90, isdown = True,
       tlog = [Hideturtle, Seth 90, Penup, Goto 5 7, Pendown], reached = [], lines = []\<rparr>"
    by (simp add: setup_turtle_def default_call_def turtle_defs py_mod_def)
  have "lindenmayer_system example_host ?c (Some Turtle) (Some (Screen example_host)) [] =
      Raised (InvalidAxiomCharacter CHR ''f'')
        \<lparr>turtle = setup_turtle ?c Turtle, screen = Screen example_host, warned = []\<rparr>"
    unfolding lindenmayer_system_def
    by (simp add: Let_def validate_lower_case_axiom) (simp add: default_call_def)
  then show ?thesis
    unfolding s by (simp add: Turtle_def)
qed

subsection \<open>The loop, one character at a time\<close>

declare parse_axiom.simps(2) [simp del]
declare lindenmayer_system_rec.simps [simp del]

lemma isupper_not_symbol:
  "char_isupper ch \<Longrightarrow>
   ch \<noteq> CHR ''['' \<and> ch \<noteq> CHR '']'' \<and> ch \<noteq> CHR ''+'' \<and> ch \<noteq> CHR ''-''"
  by (auto simp: char_isupper_def)

lemma parse_open:
  "parse_axiom c i (CHR ''['' # rest) stk bb w =
     parse_axiom c (Suc i) rest ((tpos (turtle w), theading (turtle w)) # stk) bb w"
  by (simp add: parse_axiom.simps(2))

lemma parse_close_empty:
  "parse_axiom c i (CHR '']'' # rest) [] bb w = Raised (UnmatchedClosingBracket i) w"
  by (simp add: parse_axiom.simps(2))

lemma parse_close_pop:
  "parse_axiom c i (CHR '']'' # rest) ((p, h) # stk) bb w =
     parse_axiom c (Suc i) rest stk bb (w\<lparr>turtle := restore c p h (turtle w)\<rparr>)"
  by (simp add: parse_axiom.simps(2))

lemma parse_plus:
  "parse_axiom c i (CHR ''+'' # rest) stk bb w =
     parse_axiom c (Suc i) rest stk bb (w\<lparr>turtle := left (angle c) (turtle w)\<rparr>)"
  by (simp add: parse_axiom.simps(2))

lemma parse_minus:
  "parse_axiom c i (CHR ''-'' # rest) stk bb w =
     parse_axiom c (Suc i) rest stk bb (w\<lparr>turtle := right (angle c) (turtle w)\<rparr>)"
  by (simp add: parse_axiom.simps(2))

lemma parse_variable:
  "char_isupper ch \<Longrightarrow>
   parse_axiom c i (ch # rest) stk bb w =
     (case find_variable (vars c) 0 ch of
        None \<Rightarrow> Raised (VariableNotProvided ch) w
      | Some (replacement, drw) \<Rightarrow>
          if depth c = 0 then
            (if drw then
               (case move_forward c i [ch] bb w of
                  Raised e w' \<Rightarrow> Raised e w'
                | Returned bb' w' \<Rightarrow> parse_axiom c (Suc i) rest stk bb' w')
             else parse_axiom c (Suc i) rest stk bb w)
          else
            (case lindenmayer_system_rec
                    (c\<lparr>axiom := replacement, depth := depth c - 1,
                       initial_window_size := None, screen_icon := None\<rparr>) w of
               Raised e w' \<Rightarrow> Raised e w'
             | Returned ret w' \<Rightarrow>
                 parse_axiom c (Suc i) rest stk
                   (if extrem_cords c = None then merge bb ret else bb) w'))"
  using isupper_not_symbol [of ch]
  by (simp add: parse_axiom.simps(2) char_isalpha_def)

lemma parse_invalid:
  "ch \<noteq> CHR ''['' \<Longrightarrow> ch \<noteq> CHR '']'' \<Longrightarrow> ch \<noteq> CHR ''+'' \<Longrightarrow> ch \<noteq> CHR ''-'' \<Longrightarrow>
   \<not> char_isupper ch \<Longrightarrow>
   parse_axiom c i (ch # rest) stk bb w = Raised (InvalidCharacter ch) w"
  by (simp add: parse_axiom.simps(2))

lemma parse_axiom_append:
  "parse_axiom c i (xs @ ys) stk bb w =
     (case parse_axiom c i xs stk bb w of
        Raised e w' \<Rightarrow> Raised e w'
      | Returned (stk', bb') w' \<Rightarrow> parse_axiom c (i + length xs) ys stk' bb' w')"
proof (induction xs arbitrary: i stk bb w)
  case Nil
  then show ?case by simp
next
  case (Cons ch xs)
  consider (op) "ch = CHR ''[''" | (cl) "ch = CHR '']''" | (pl) "ch = CHR ''+''"
    | (mi) "ch = CHR ''-''" | (var) "char_isupper ch"
    | (bad) "ch \<noteq> CHR ''[''" "ch \<noteq> CHR '']''" "ch \<noteq> CHR ''+''" "ch \<noteq> CHR ''-''"
        "\<not> char_isupper ch"
    by blast
  then show ?case
  proof cases
    case op
    then show ?thesis by (simp add: parse_open Cons.IH cong: outcome.case_cong)
  next
    case cl
    then show ?thesis
      by (cases stk) (auto simp: parse_close_empty parse_close_pop Cons.IH cong: outcome.case_cong)
  next
    case pl
    then show ?thesis by (simp add: parse_plus Cons.IH cong: outcome.case_cong)
  next
    case mi
    then show ?thesis by (simp add: parse_minus Cons.IH cong: outcome.case_cong)
  next
    case var
    show ?thesis
      by (simp add: parse_variable [OF var] Cons.IH
            split: option.splits outcome.splits prod.splits cong: outcome.case_cong)
  next
    case bad
    then show ?thesis by (simp add: parse_invalid)
  qed
qed

subsection \<open>Brackets\<close>

lemmas screen_defs = screen_do_def Screen_def screen_setup_def open_screen_def
lemmas step_simps = parse_open parse_close_empty parse_close_pop parse_plus parse_minus
  parse_variable parse_invalid
lemmas run_defs = move_forward_def restore_def is_static_def extend_def merge_def resize_def
  setup_turtle_def py_mod_def suppress_drawing_def begin_call_def warn_unclosed_def
  returned_cords_def
lemmas top_defs = lindenmayer_system_def configure_def compress_def draw_def validate_def

text \<open>
  Claim C5: in every axiom, a closing bracket met with an empty list of stored states
  raises the \<open>ValueError\<close> of line 231, which carries the index of the bracket in the
  axiom being parsed (after a prefix \<open>pre\<close> that left the list empty, the index is
  the one of the first character plus the length of \<open>pre\<close>). With a stored state,
  the bracket pops it and the loop goes on with a turtle that is at the stored position
  with the stored heading, its pen down unless \<open>__no_draw\<close> is set. The witness is the
  axiom \<open>F]\<close>, which fails at index 1.
\<close>

theorem closing_bracket:
  "(parse_axiom c i pre stk0 bb w = Returned ([], bb') w' \<longrightarrow>
      parse_axiom c i (pre @ CHR '']'' # post) stk0 bb w =
        Raised (UnmatchedClosingBracket (i + length pre)) w') \<and>
   parse_axiom c i (CHR '']'' # rest) ((p, h) # stk) bb w =
     parse_axiom c (Suc i) rest stk bb (w\<lparr>turtle := restore c p h (turtle w)\<rparr>) \<and>
   tpos (restore c p h t) = p \<and>
   theading (restore c p h t) = py_mod h 360 \<and>
   (0 \<le> h \<and> h < 360 \<longrightarrow> theading (restore c p h t) = h) \<and>
   isdown (restore c p h t) = (\<not> no_draw c)"
proof -
  have "py_mod h 360 = h" if "0 \<le> h" "h < 360"
  proof -
    from that have "\<lfloor>h / 360\<rfloor> = 0" by (simp add: floor_eq_iff)
    then show ?thesis by (simp add: py_mod_def)
  qed
  then show ?thesis
    by (simp add: parse_axiom_append parse_close_empty parse_close_pop restore_def Let_def
          turtle_defs)
qed

theorem closing_bracket_witness:
  "parse_axiom ((default_call ''F]'' [(''F'', Str ''F'')] 0 90)\<lparr>static_color := Some True\<rparr>)
     0 ''F]'' [] ((0, 0), (0, 0))
     \<lparr>turtle = Turtle, screen = Screen example_host, warned = []\<rparr> =
   Raised (UnmatchedClosingBracket 1)
     \<lparr>turtle = \<lparr>tpos = (10, 0), theading = 0, isdown = True, tlog = [Forward 10],
                 reached = [(10, 0)], lines = [((0, 0), (10, 0))]\<rparr>,
      screen = Screen example_host, warned = []\<rparr> \<and>
   (0::real) \<le> 90 \<and> (90::real) < 360 \<and>
   theading (restore ((default_call ''F]'' [(''F'', Str ''F'')] 0 90)\<lparr>static_color := Some True\<rparr>)
               (1, 2) 90 Turtle) = 90 \<and>
   lindenmayer_system example_host
     ((default_call ''F]'' [(''F'', Str ''F'')] 0 90)\<lparr>compression_factor := Factor 1\<rparr>)
     None None [] =
   Raised (UnmatchedClosingBracket 1)
     \<lparr>turtle =
        \<lparr>tpos = (0, 10), theading = 90, isdown = True,
           tlog = [Hideturtle, Seth 90, Penup, Goto 0 0, Pendown, Color 255 255 255, Speed 0,
                   Forward 10],
           reached = [(0, 10)], lines = [((0, 0), 0, 10)]\<rparr>,
      screen =
        \<lparr>window_width = 960, window_height = 810,
           slog = [Title ''Lindenmayer System'', Colormode 255, Bgcolor 0 0 0, Tkraise,
                   TextTurtle 255 255 255, Tracer 0 0, Print ''Started drawing.'',
                   TextWrite ''Drawing...'']\<rparr>,
      warned = []\<rparr>"
proof -
  let ?d = "default_call ''F]'' [(''F'', Str ''F'')] 0 90"
  let ?c = "?d\<lparr>static_color := Some True\<rparr>"
  let ?w = "\<lparr>turtle = Turtle, screen = Screen example_host, warned = []\<rparr>"
  let ?w' = "\<lparr>turtle = \<lparr>tpos = (10, 0), theading = 0, isdown = True, tlog = [Forward 10],
                 reached = [(10, 0)], lines = [((0, 0), (10, 0))]\<rparr>,
      screen = Screen example_host, warned = []\<rparr>"
  have pre: "parse_axiom ?c 0 ''F'' [] ((0, 0), (0, 0)) ?w = Returned ([], ((0, 0), (10, 0))) ?w'"
    by (simp add: default_call_def char_defs screen_defs turtle_defs run_defs step_simps
          example_host_def Let_def)
  have top: "lindenmayer_system example_host (?d\<lparr>compression_factor := Factor 1\<rparr>) None None []
      = Raised (UnmatchedClosingBracket 1)
     \<lparr>turtle =
        \<lparr>tpos = (0, 10), theading = 90, isdown = True,
           tlog = [Hideturtle, Seth 90, Penup, Goto 0 0, Pendown, Color 255 255 255, Speed 0,
                   Forward 10],
           reached = [(0, 10)], lines = [((0, 0), 0, 10)]\<rparr>,
      screen =
        \<lparr>window_width = 960, window_height = 810,
           slog = [Title ''Lindenmayer System'', Colormode 255, Bgcolor 0 0 0, Tkraise,
                   TextTurtle 255 255 255, Tracer 0 0, Print ''Started drawing.'',
                   TextWrite ''Drawing...'']\<rparr>,
      warned = []\<rparr>"
    by (simp add: top_defs default_call_def char_defs screen_defs turtle_defs run_defs step_simps
          example_host_def Let_def)
  note inst = closing_bracket [where c = ?c and i = 0 and pre = "''F''" and ?stk0.0 = "[]"
        and bb = "((0, 0), (0, 0))" and w = ?w and bb' = "((0, 0), (10, 0))" and w' = ?w'
        and post = "[]" and rest = "[]" and stk = "[]" and p = "(1, 2)" and h = 90 and t = Turtle]
  from inst pre have a: "parse_axiom ?c 0 ''F]'' [] ((0, 0), (0, 0)) ?w =
      Raised (UnmatchedClosingBracket 1) ?w'"
    by simp
  from inst have b: "theading (restore ?c (1, 2) 90 Turtle) = 90"
    by simp
  show ?thesis
    by (simp only: a b top) simp
qed

subsection \<open>Induction over a call that returns\<close>

text \<open>
  A property \<open>P\<close> of the loop and a property \<open>Q\<close> of a call, both of the arguments and
  of the result of a run that returns, hold when they are kept by every step of the
  loop and by a call. The cases follow the branches of lines 226 to 299.
\<close>

lemma interpreter_induct:
  fixes P :: "call \<Rightarrow> nat \<Rightarrow> string \<Rightarrow> (cord \<times> real) list \<Rightarrow> cord \<times> cord \<Rightarrow> world
               \<Rightarrow> (cord \<times> real) list \<times> (cord \<times> cord) \<Rightarrow> world \<Rightarrow> bool"
    and Q :: "call \<Rightarrow> world \<Rightarrow> cord \<times> cord \<Rightarrow> world \<Rightarrow> bool"
  assumes Nil: "\<And>c i stk bb w. P c i [] stk bb w (stk, bb) w"
    and Open: "\<And>c i rest stk bb w r w'.
        P c (Suc i) rest ((tpos (turtle w), theading (turtle w)) # stk) bb w r w' \<Longrightarrow>
        P c i (CHR ''['' # rest) stk bb w r w'"
    and Close: "\<And>c i rest p h stk bb w r w'.
        P c (Suc i) rest stk bb (w\<lparr>turtle := restore c p h (turtle w)\<rparr>) r w' \<Longrightarrow>
        P c i (CHR '']'' # rest) ((p, h) # stk) bb w r w'"
    and Plus: "\<And>c i rest stk bb w r w'.
        P c (Suc i) rest stk bb (w\<lparr>turtle := left (angle c) (turtle w)\<rparr>) r w' \<Longrightarrow>
        P c i (CHR ''+'' # rest) stk bb w r w'"
    and Minus: "\<And>c i rest stk bb w r w'.
        P c (Suc i) rest stk bb (w\<lparr>turtle := right (angle c) (turtle w)\<rparr>) r w' \<Longrightarrow>
        P c i (CHR ''-'' # rest) stk bb w r w'"
    and Forward: "\<And>c i ch rest stk bb w replacement bb1 w1 r w'.
        char_isupper ch \<Longrightarrow> find_variable (vars c) 0 ch = Some (replacement, True) \<Longrightarrow>
        depth c = 0 \<Longrightarrow> move_forward c i [ch] bb w = Returned bb1 w1 \<Longrightarrow>
        P c (Suc i) rest stk bb1 w1 r w' \<Longrightarrow> P c i (ch # rest) stk bb w r w'"
    and Skip: "\<And>c i ch rest stk bb w replacement r w'.
        char_isupper ch \<Longrightarrow> find_variable (vars c) 0 ch = Some (replacement, False) \<Longrightarrow>
        depth c = 0 \<Longrightarrow>
        P c (Suc i) rest stk bb w r w' \<Longrightarrow> P c i (ch # rest) stk bb w r w'"
    and Expand: "\<And>c i ch rest stk bb w replacement drw ret w1 r w'.
        char_isupper ch \<Longrightarrow> find_variable (vars c) 0 ch = Some (replacement, drw) \<Longrightarrow>
        depth c \<noteq> 0 \<Longrightarrow>
        lindenmayer_system_rec (c\<lparr>axiom := replacement, depth := depth c - 1,
            initial_window_size := None, screen_icon := None\<rparr>) w = Returned ret w1 \<Longrightarrow>
        Q (c\<lparr>axiom := replacement, depth := depth c - 1,
            initial_window_size := None, screen_icon := None\<rparr>) w ret w1 \<Longrightarrow>
        P c (Suc i) rest stk (if extrem_cords c = None then merge bb ret else bb) w1 r w' \<Longrightarrow>
        P c i (ch # rest) stk bb w r w'"
    and Negative: "\<And>c w. depth c < 0 \<Longrightarrow> Q c w (tpos (turtle w), tpos (turtle w)) w"
    and Call: "\<And>c w stk bb w1. 0 \<le> depth c \<Longrightarrow>
        parse_axiom c 0 (axiom c) [] ((0, 0), (0, 0)) (begin_call c w) = Returned (stk, bb) w1 \<Longrightarrow>
        P c 0 (axiom c) [] ((0, 0), (0, 0)) (begin_call c w) (stk, bb) w1 \<Longrightarrow>
        Q c w (returned_cords c bb) (warn_unclosed c stk w1)"
  shows "parse_axiom c i cs stk bb w = Returned r w' \<Longrightarrow> P c i cs stk bb w r w'"
    and "lindenmayer_system_rec c w = Returned r2 w' \<Longrightarrow> Q c w r2 w'"
proof (induction c i cs stk bb w and c w arbitrary: r w' and r2 w'
       rule: parse_axiom_lindenmayer_system_rec.induct)
  case (1 c index stored_states bb w)
  then have "r = (stored_states, bb)" "w' = w" by auto
  then show ?case using Nil by simp
next
  case (2 c index char rest stored_states bb w)
  consider (op) "char = CHR ''[''" | (cl) "char = CHR '']''" | (pl) "char = CHR ''+''"
    | (mi) "char = CHR ''-''" | (var) "char_isupper char"
    | (bad) "char \<noteq> CHR ''[''" "char \<noteq> CHR '']''" "char \<noteq> CHR ''+''" "char \<noteq> CHR ''-''"
        "\<not> char_isupper char"
    by blast
  then show ?case
  proof cases
    case op
    with "2.prems" have "parse_axiom c (Suc index) rest
        ((tpos (turtle w), theading (turtle w)) # stored_states) bb w = Returned r w'"
      by (simp add: parse_open)
    from "2.IH"(1) [OF op this] show ?thesis unfolding op by (rule Open)
  next
    case cl
    show ?thesis
    proof (cases stored_states)
      case Nil
      with cl "2.prems" show ?thesis by (simp add: parse_close_empty)
    next
      case (Cons x states)
      obtain p h where x: "x = (p, h)" by (cases x)
      from cl Cons x "2.prems" have "parse_axiom c (Suc index) rest states bb
          (w\<lparr>turtle := restore c p h (turtle w)\<rparr>) = Returned r w'"
        by (simp add: parse_close_pop)
      from "2.IH"(2) [OF _ cl Cons x [symmetric] this] cl
      have "P c (Suc index) rest states bb (w\<lparr>turtle := restore c p h (turtle w)\<rparr>) r w'"
        by simp
      then show ?thesis unfolding cl Cons x by (rule Close)
    qed
  next
    case pl
    with "2.prems" have "parse_axiom c (Suc index) rest stored_states bb
        (w\<lparr>turtle := left (angle c) (turtle w)\<rparr>) = Returned r w'"
      by (simp add: parse_plus)
    from "2.IH"(3) [OF _ _ pl this] pl
    have "P c (Suc index) rest stored_states bb (w\<lparr>turtle := left (angle c) (turtle w)\<rparr>) r w'"
      by simp
    then show ?thesis unfolding pl by (rule Plus)
  next
    case mi
    with "2.prems" have "parse_axiom c (Suc index) rest stored_states bb
        (w\<lparr>turtle := right (angle c) (turtle w)\<rparr>) = Returned r w'"
      by (simp add: parse_minus)
    from "2.IH"(4) [OF _ _ _ mi this] mi
    have "P c (Suc index) rest stored_states bb (w\<lparr>turtle := right (angle c) (turtle w)\<rparr>) r w'"
      by simp
    then show ?thesis unfolding mi by (rule Minus)
  next
    case var
    note ns = isupper_not_symbol [OF var]
    have alpha: "char_isalpha char \<and> char_isupper char"
      using var by (simp add: char_isalpha_def)
    show ?thesis
    proof (cases "find_variable (vars c) 0 char")
      case None
      with "2.prems" var show ?thesis by (simp add: parse_variable)
    next
      case (Some a)
      obtain replacement drw where a: "a = (replacement, drw)" by (cases a)
      show ?thesis
      proof (cases "depth c = 0")
        case True
        show ?thesis
        proof (cases drw)
          case True
          with \<open>depth c = 0\<close> Some a "2.prems" var obtain bb1 w1 where
            mf: "move_forward c index [char] bb w = Returned bb1 w1"
            and rest: "parse_axiom c (Suc index) rest stored_states bb1 w1 = Returned r w'"
            by (auto simp: parse_variable split: outcome.splits)
          from "2.IH"(5) [OF _ _ _ _ alpha Some a [symmetric] \<open>depth c = 0\<close> True mf rest] ns
          have "P c (Suc index) rest stored_states bb1 w1 r w'" by simp
          from Forward [OF var _ \<open>depth c = 0\<close> mf this] Some a True show ?thesis by simp
        next
          case False
          with \<open>depth c = 0\<close> Some a "2.prems" var have
            rest: "parse_axiom c (Suc index) rest stored_states bb w = Returned r w'"
            by (auto simp: parse_variable)
          from "2.IH"(6) [OF _ _ _ _ alpha Some a [symmetric] \<open>depth c = 0\<close> False rest] ns
          have "P c (Suc index) rest stored_states bb w r w'" by simp
          from Skip [OF var _ \<open>depth c = 0\<close> this] Some a False show ?thesis by simp
        qed
      next
        case False
        let ?c' = "c\<lparr>axiom := replacement, depth := depth c - 1,
                       initial_window_size := None, screen_icon := None\<rparr>"
        from False Some a "2.prems" var obtain ret w1 where
          rc: "lindenmayer_system_rec ?c' w = Returned ret w1"
          and rest: "parse_axiom c (Suc index) rest stored_states
                 (if extrem_cords c = None then merge bb ret else bb) w1 = Returned r w'"
          by (auto simp: parse_variable split: outcome.splits)
        from "2.IH"(7) [OF _ _ _ _ alpha Some a [symmetric] False rc] ns
        have q: "Q ?c' w ret w1" by simp
        from "2.IH"(8) [OF _ _ _ _ alpha Some a [symmetric] False rc rest] ns
        have "P c (Suc index) rest stored_states
                 (if extrem_cords c = None then merge bb ret else bb) w1 r w'" by simp
        from Expand [OF var _ False rc q this] Some a show ?thesis by simp
      qed
    qed
  next
    case bad
    with "2.prems" show ?thesis by (simp add: parse_invalid)
  qed
next
  case (3 c w)
  show ?case
  proof (cases "depth c < 0")
    case True
    with "3.prems" have "r2 = (tpos (turtle w), tpos (turtle w))" "w' = w"
      by (auto simp: lindenmayer_system_rec.simps)
    with Negative [OF True, of w] show ?thesis by simp
  next
    case False
    with "3.prems" obtain stk bb w1 where
      pa: "parse_axiom c 0 (axiom c) [] ((0, 0), (0, 0)) (begin_call c w) = Returned (stk, bb) w1"
      and r2: "r2 = returned_cords c bb" and w': "w' = warn_unclosed c stk w1"
      by (auto simp: lindenmayer_system_rec.simps split: outcome.splits)
    from "3.IH" [OF False pa] have "P c 0 (axiom c) [] ((0, 0), (0, 0)) (begin_call c w) (stk, bb) w1" .
    from Call [OF _ pa this] False show ?thesis unfolding r2 w' by simp
  qed
qed

subsection \<open>The stored states of a call\<close>

lemma move_forward_warned:
  "move_forward c i v bb w = Returned bb' w' \<Longrightarrow> warned w' = warned w"
  by (auto simp: move_forward_def Let_def
      split: option.splits if_splits fg_color_type.splits prod.splits)

lemma warned_grows:
  shows "parse_axiom c i cs stk bb w = Returned r w' \<Longrightarrow> \<exists>ws. warned w' = warned w @ ws"
    and "lindenmayer_system_rec c w = Returned r2 w' \<Longrightarrow> \<exists>ws. warned w' = warned w @ ws"
proof -
  let ?P = "\<lambda>(c::call) (i::nat) (cs::string) (stk::(cord \<times> real) list) (bb::cord \<times> cord)
      w (r::(cord \<times> real) list \<times> (cord \<times> cord)) w'. \<exists>ws. warned w' = warned w @ ws"
  let ?Q = "\<lambda>(c::call) w (r::cord \<times> cord) w'. \<exists>ws. warned w' = warned w @ ws"
  have "(parse_axiom c i cs stk bb w = Returned r w' \<longrightarrow> ?P c i cs stk bb w r w') \<and>
        (lindenmayer_system_rec c w = Returned r2 w' \<longrightarrow> ?Q c w r2 w')"
  proof (intro conjI impI)
    assume a: "parse_axiom c i cs stk bb w = Returned r w'"
    show "?P c i cs stk bb w r w'"
      by (rule interpreter_induct(1) [where P = ?P and Q = ?Q, OF _ _ _ _ _ _ _ _ _ _ a])
         (auto simp: begin_call_def warn_unclosed_def dest: move_forward_warned)
  next
    assume a: "lindenmayer_system_rec c w = Returned r2 w'"
    show "?Q c w r2 w'"
      by (rule interpreter_induct(2) [where P = ?P and Q = ?Q, OF _ _ _ _ _ _ _ _ _ _ a])
         (auto simp: begin_call_def warn_unclosed_def dest: move_forward_warned)
  qed
  then show "parse_axiom c i cs stk bb w = Returned r w' \<Longrightarrow> \<exists>ws. warned w' = warned w @ ws"
    and "lindenmayer_system_rec c w = Returned r2 w' \<Longrightarrow> \<exists>ws. warned w' = warned w @ ws"
    by blast+
qed

lemma stored_states_height:
  assumes "parse_axiom c i cs stk bb w = Returned r w'"
  shows "length (fst r) + count_list cs CHR '']'' = length stk + count_list cs CHR ''['' \<and>
         (\<forall>n. count_list (take n cs) CHR '']'' \<le> length stk + count_list (take n cs) CHR ''['')"
proof -
  let ?P = "\<lambda>(c::call) (i::nat) (cs::string) (stk::(cord \<times> real) list) (bb::cord \<times> cord)
      (w::world) (r::(cord \<times> real) list \<times> (cord \<times> cord)) (w'::world).
      length (fst r) + count_list cs CHR '']'' = length stk + count_list cs CHR ''['' \<and>
      (\<forall>n. count_list (take n cs) CHR '']'' \<le> length stk + count_list (take n cs) CHR ''['')"
  let ?Q = "\<lambda>(c::call) (w::world) (r::cord \<times> cord) (w'::world). True"
  show ?thesis
  proof (rule interpreter_induct(1) [where P = ?P and Q = ?Q, OF _ _ _ _ _ _ _ _ _ _ assms])
    fix ch :: char and c :: call and i rest stk bb w replacement bb1 w1 r w'
    assume "char_isupper ch"
    then have ns: "ch \<noteq> CHR ''[''" "ch \<noteq> CHR '']''" using isupper_not_symbol by auto
    { assume "?P c (Suc i) rest stk bb1 w1 r w'"
      with ns show "?P c i (ch # rest) stk bb w r w'"
        by (auto simp: take_Cons split: nat.splits) }
    note var = this
    { assume "?P c (Suc i) rest stk bb w r w'"
      with ns show "?P c i (ch # rest) stk bb w r w'"
        by (auto simp: take_Cons split: nat.splits) }
    { fix ret :: "cord \<times> cord"
      assume "?P c (Suc i) rest stk (if extrem_cords c = None then merge bb ret else bb) w1 r w'"
      with ns show "?P c i (ch # rest) stk bb w r w'"
        by (auto simp: take_Cons split: nat.splits) }
  qed (auto simp: take_Cons split: nat.splits)
qed

lemma stored_states_below:
  assumes "parse_axiom c i cs stk bb w = Returned r w'"
  shows "\<forall>top base. stk = top @ base \<and>
           (\<forall>n. count_list (take n cs) CHR '']'' \<le> length top + count_list (take n cs) CHR ''['')
         \<longrightarrow> (\<exists>top'. fst r = top' @ base \<and>
                length top' + count_list cs CHR '']'' = length top + count_list cs CHR ''['')"
proof -
  let ?P = "\<lambda>(c::call) (i::nat) (cs::string) (stk::(cord \<times> real) list) (bb::cord \<times> cord)
      (w::world) (r::(cord \<times> real) list \<times> (cord \<times> cord)) (w'::world).
      \<forall>top base. stk = top @ base \<and>
           (\<forall>n. count_list (take n cs) CHR '']'' \<le> length top + count_list (take n cs) CHR ''['')
         \<longrightarrow> (\<exists>top'. fst r = top' @ base \<and>
                length top' + count_list cs CHR '']'' = length top + count_list cs CHR ''['')"
  let ?Q = "\<lambda>(c::call) (w::world) (r::cord \<times> cord) (w'::world). True"
  have pass: "?P c i (ch # rest) stk bb w r w'"
    if "?P c i' rest stk bb' w1 r w'" "ch \<noteq> CHR ''[''" "ch \<noteq> CHR '']''"
    for c i i' ch rest stk bb bb' w w1 r w'
  proof (intro allI impI)
    fix top base
    assume a: "stk = top @ base \<and>
        (\<forall>n. count_list (take n (ch # rest)) CHR '']''
              \<le> length top + count_list (take n (ch # rest)) CHR ''['')"
    have "\<forall>n. count_list (take n rest) CHR '']'' \<le> length top + count_list (take n rest) CHR ''[''"
    proof
      fix n
      from a have "count_list (take (Suc n) (ch # rest)) CHR '']''
          \<le> length top + count_list (take (Suc n) (ch # rest)) CHR ''[''" by blast
      with that(2,3) show "count_list (take n rest) CHR '']''
          \<le> length top + count_list (take n rest) CHR ''[''" by simp
    qed
    with that(1) a obtain top' where "fst r = top' @ base"
        "length top' + count_list rest CHR '']'' = length top + count_list rest CHR ''[''"
      by blast
    with that(2,3) show "\<exists>top'. fst r = top' @ base \<and>
        length top' + count_list (ch # rest) CHR '']''
          = length top + count_list (ch # rest) CHR ''[''"
      by auto
  qed
  show ?thesis
  proof (rule interpreter_induct(1) [where P = ?P and Q = ?Q, OF _ _ _ _ _ _ _ _ _ _ assms])
    fix c :: call and i :: nat and stk :: "(cord \<times> real) list" and bb :: "cord \<times> cord"
      and w :: world
    show "?P c i [] stk bb w (stk, bb) w" by simp
  next
    fix c :: call and i rest stk bb and w :: world and r w'
    assume ih: "?P c (Suc i) rest ((tpos (turtle w), theading (turtle w)) # stk) bb w r w'"
    show "?P c i (CHR ''['' # rest) stk bb w r w'"
    proof (intro allI impI)
      fix top base
      assume a: "stk = top @ base \<and>
          (\<forall>n. count_list (take n (CHR ''['' # rest)) CHR '']''
                \<le> length top + count_list (take n (CHR ''['' # rest)) CHR ''['')"
      have "\<forall>n. count_list (take n rest) CHR '']''
          \<le> length ((tpos (turtle w), theading (turtle w)) # top) + count_list (take n rest) CHR ''[''"
      proof
        fix n
        from a have "count_list (take (Suc n) (CHR ''['' # rest)) CHR '']''
            \<le> length top + count_list (take (Suc n) (CHR ''['' # rest)) CHR ''[''" by blast
        then show "count_list (take n rest) CHR '']''
            \<le> length ((tpos (turtle w), theading (turtle w)) # top)
               + count_list (take n rest) CHR ''[''" by simp
      qed
      moreover from a have "(tpos (turtle w), theading (turtle w)) # stk
          = ((tpos (turtle w), theading (turtle w)) # top) @ base" by simp
      ultimately obtain top' where "fst r = top' @ base"
          "length top' + count_list rest CHR '']''
             = length ((tpos (turtle w), theading (turtle w)) # top) + count_list rest CHR ''[''"
        using ih by blast
      then show "\<exists>top'. fst r = top' @ base \<and>
          length top' + count_list (CHR ''['' # rest) CHR '']''
            = length top + count_list (CHR ''['' # rest) CHR ''[''"
        by auto
    qed
  next
    fix c :: call and i rest p h stk bb and w :: world and r w'
    assume ih: "?P c (Suc i) rest stk bb (w\<lparr>turtle := restore c p h (turtle w)\<rparr>) r w'"
    show "?P c i (CHR '']'' # rest) ((p, h) # stk) bb w r w'"
    proof (intro allI impI)
      fix top base
      assume a: "(p, h) # stk = top @ base \<and>
          (\<forall>n. count_list (take n (CHR '']'' # rest)) CHR '']''
                \<le> length top + count_list (take n (CHR '']'' # rest)) CHR ''['')"
      then have "count_list (take (Suc 0) (CHR '']'' # rest)) CHR '']''
          \<le> length top + count_list (take (Suc 0) (CHR '']'' # rest)) CHR ''[''" by blast
      then have "top \<noteq> []" by auto
      with a obtain top2 where top: "top = (p, h) # top2" "stk = top2 @ base"
        by (cases top) auto
      have "\<forall>n. count_list (take n rest) CHR '']'' \<le> length top2 + count_list (take n rest) CHR ''[''"
      proof
        fix n
        from a have "count_list (take (Suc n) (CHR '']'' # rest)) CHR '']''
            \<le> length top + count_list (take (Suc n) (CHR '']'' # rest)) CHR ''[''" by blast
        with top show "count_list (take n rest) CHR '']''
            \<le> length top2 + count_list (take n rest) CHR ''[''" by simp
      qed
      with ih top obtain top' where "fst r = top' @ base"
          "length top' + count_list rest CHR '']'' = length top2 + count_list rest CHR ''[''"
        by blast
      with top show "\<exists>top'. fst r = top' @ base \<and>
          length top' + count_list (CHR '']'' # rest) CHR '']''
            = length top + count_list (CHR '']'' # rest) CHR ''[''"
        by auto
    qed
  next
    fix c :: call and i rest stk bb and w :: world and r w'
    assume "?P c (Suc i) rest stk bb (w\<lparr>turtle := left (angle c) (turtle w)\<rparr>) r w'"
    then show "?P c i (CHR ''+'' # rest) stk bb w r w'" by (rule pass) simp_all
  next
    fix c :: call and i rest stk bb and w :: world and r w'
    assume "?P c (Suc i) rest stk bb (w\<lparr>turtle := right (angle c) (turtle w)\<rparr>) r w'"
    then show "?P c i (CHR ''-'' # rest) stk bb w r w'" by (rule pass) simp_all
  next
    fix ch :: char and c :: call and i rest stk bb w replacement bb1 w1 r w'
    assume "char_isupper ch" and "?P c (Suc i) rest stk bb1 w1 r w'"
    then show "?P c i (ch # rest) stk bb w r w'"
      using isupper_not_symbol [of ch] by (intro pass) auto
  next
    fix ch :: char and c :: call and i rest stk bb w and replacement :: string and r w'
    assume "char_isupper ch" and "?P c (Suc i) rest stk bb w r w'"
    then show "?P c i (ch # rest) stk bb w r w'"
      using isupper_not_symbol [of ch] by (intro pass) auto
  next
    fix ch :: char and c :: call and i rest stk bb w and replacement :: string
      and drw :: bool and ret :: "cord \<times> cord" and w1 r w'
    assume "char_isupper ch"
      and "?P c (Suc i) rest stk (if extrem_cords c = None then merge bb ret else bb) w1 r w'"
    then show "?P c i (ch # rest) stk bb w r w'"
      using isupper_not_symbol [of ch] by (intro pass) auto
  qed auto
qed

lemma matched_brackets:
  assumes "\<forall>n. count_list (take n pre) CHR '']'' \<le> count_list (take n pre) CHR ''[''"
    and "count_list pre CHR '']'' = count_list pre CHR ''[''"
  shows "parse_axiom c i (CHR ''['' # pre @ CHR '']'' # post) stk bb w =
     (case parse_axiom c (Suc i) pre ((tpos (turtle w), theading (turtle w)) # stk) bb w of
        Raised e w1 \<Rightarrow> Raised e w1
      | Returned (stk1, bb1) w1 \<Rightarrow>
          parse_axiom c (Suc (Suc (i + length pre))) post stk bb1
            (w1\<lparr>turtle := restore c (tpos (turtle w)) (theading (turtle w)) (turtle w1)\<rparr>))"
proof (cases "parse_axiom c (Suc i) pre ((tpos (turtle w), theading (turtle w)) # stk) bb w")
  case (Raised e w1)
  then show ?thesis by (simp add: parse_open parse_axiom_append)
next
  case (Returned r w1)
  obtain stk1 bb1 where r: "r = (stk1, bb1)" by (cases r)
  from stored_states_below [OF Returned, rule_format,
      of "[]" "(tpos (turtle w), theading (turtle w)) # stk"] assms
  have "stk1 = (tpos (turtle w), theading (turtle w)) # stk" using r by auto
  with Returned r show ?thesis
    by (simp add: parse_open parse_axiom_append parse_close_pop)
qed

lemma draw_stored_states:
  assumes "draw c w = Returned r w'"
  shows "(\<forall>n. count_list (take n (axiom c)) CHR '']'' \<le> count_list (take n (axiom c)) CHR ''['') \<and>
         (\<exists>ws. warned w' = warned w @ ws @
            (if count_list (axiom c) CHR ''['' \<noteq> count_list (axiom c) CHR '']''
             then [axiom c] else []))"
proof -
  let ?w = "w\<lparr>turtle := suppress_drawing c (turtle w),
      screen := (if instant_draw c
                 then screen_do (TextWrite ''Drawing...'') (screen_do (Print ''Started drawing.'') (screen w))
                 else screen_do (Print ''Started drawing.'') (screen w))\<rparr>"
  from assms obtain stk bb w1 where
    pa: "parse_axiom c 0 (axiom c) [] ((0, 0), (0, 0)) ?w = Returned (stk, bb) w1"
    and w': "warned w' = warned (warn_unclosed c stk w1)"
    by (auto simp: draw_def Let_def warn_unclosed_def split: outcome.splits if_splits)
  from stored_states_height [OF pa]
  have h: "length stk + count_list (axiom c) CHR '']'' = count_list (axiom c) CHR ''[''"
    and p: "\<forall>n. count_list (take n (axiom c)) CHR '']'' \<le> count_list (take n (axiom c)) CHR ''[''"
    by simp_all
  from warned_grows(1) [OF pa] obtain ws where "warned w1 = warned w @ ws" by auto
  moreover from h have "stk \<noteq> [] \<longleftrightarrow>
      count_list (axiom c) CHR ''['' \<noteq> count_list (axiom c) CHR '']''"
    by (cases stk) auto
  ultimately have "warned w' = warned w @ ws @
      (if count_list (axiom c) CHR ''['' \<noteq> count_list (axiom c) CHR '']'' then [axiom c] else [])"
    unfolding w' by (simp add: warn_unclosed_def)
  with p show ?thesis by blast
qed

lemma configure_warned:
  assumes "configure h c w = (c1, w1)"
  shows "axiom c1 = axiom c" "warned w1 = warned w"
  using assms
  by (auto simp: configure_def Let_def split: fg_color_type.splits prod.splits)

lemma auto_adjust_warned:
  assumes "auto_adjust c w = Returned c2 w3"
  shows "axiom c2 = axiom c \<and> (\<exists>ws. warned w3 = warned w @ ws)"
proof -
  let ?w1 = "w\<lparr>screen := screen_do (Tracer 0 0)
                   (screen_do (TextWrite ''Calculating compression factor...'') (screen w))\<rparr>"
  from assms obtain r wd where dr: "dry_run c ?w1 = Returned r wd"
    and w3: "warned w3 = warned wd" and ax: "axiom c2 = axiom c"
    by (auto simp: auto_adjust_def Let_def split: outcome.splits option.splits prod.splits
        if_splits)
  from warned_grows(2) [OF dr [unfolded dry_run_def]] w3 ax show ?thesis by simp
qed

lemma top_level_stored_states:
  assumes "lindenmayer_system h c t0 s0 ws = Returned r w'" and "0 \<le> depth c"
  shows "(\<forall>n. count_list (take n (axiom c)) CHR '']'' \<le> count_list (take n (axiom c)) CHR ''['') \<and>
         (\<exists>ws'. warned w' = ws @ ws' @
            (if count_list (axiom c) CHR ''['' \<noteq> count_list (axiom c) CHR '']''
             then [axiom c] else []))"
proof -
  let ?t = "case t0 of None \<Rightarrow> Turtle | Some t \<Rightarrow> t"
  let ?s = "case s0 of None \<Rightarrow> open_screen h (screen_icon c) | Some s \<Rightarrow> s"
  let ?w1 = "\<lparr>turtle = setup_turtle c ?t, screen = ?s, warned = ws\<rparr>"
  obtain c1 w2 where cf: "configure h c ?w1 = (c1, w2)" by (cases "configure h c ?w1")
  note facts = configure_warned [OF cf]
  from assms cf obtain c2 w3 where
    dr: "draw c2 w3 = Returned r w'" and
    c2: "(case compression_factor c1 of Auto \<Rightarrow> auto_adjust c1 w2
          | Factor f \<Rightarrow> Returned (compress c1 f) w2) = Returned c2 w3"
    by (auto simp: lindenmayer_system_def Let_def split: option.splits outcome.splits)
  have g: "axiom c2 = axiom c \<and> (\<exists>ws1. warned w3 = ws @ ws1)"
  proof (cases "compression_factor c1")
    case Auto
    with c2 have "auto_adjust c1 w2 = Returned c2 w3" by simp
    from auto_adjust_warned [OF this] facts show ?thesis by simp
  next
    case (Factor f)
    with c2 have "c2 = compress c1 f" "w3 = w2" by simp_all
    with facts show ?thesis by (simp add: compress_def)
  qed
  then obtain ws1 where w3: "warned w3 = ws @ ws1" and ax: "axiom c2 = axiom c" by blast
  from draw_stored_states [OF dr] ax w3 show ?thesis by auto
qed

text \<open>
  Claim C2, as the code has it. The list \<open>stored_states\<close> is created empty in every call,
  the top-level one and every recursive one (line 223), and is never passed on. An
  opening bracket stores the position and the heading the turtle has then, on the list
  of the call that parses it. A closing bracket is fatal when the list of that call is
  empty, whatever the calls around it have stored; otherwise it takes the last stored
  state off and restores it, so after a matched pair of brackets the list is as it was
  before and the turtle is back at the position and heading it had at the opening
  bracket. So a call returns only if in every prefix of its own axiom there are at
  most as many closing as opening brackets. And every call warns for itself, when it
  ends, iff its own axiom has more opening than closing brackets: the warnings of a
  call are those of the calls it made, followed by its own. This holds for the
  recursive call and for the top-level call.
\<close>

theorem stored_states_are_per_call:
  "parse_axiom c i (CHR ''['' # rest) stk bb w =
     parse_axiom c (Suc i) rest ((tpos (turtle w), theading (turtle w)) # stk) bb w \<and>
   parse_axiom c i (CHR '']'' # rest) [] bb w = Raised (UnmatchedClosingBracket i) w \<and>
   ((\<forall>n. count_list (take n pre) CHR '']'' \<le> count_list (take n pre) CHR ''['') \<and>
    count_list pre CHR '']'' = count_list pre CHR ''['' \<longrightarrow>
      parse_axiom c i (CHR ''['' # pre @ CHR '']'' # post) stk bb w =
        (case parse_axiom c (Suc i) pre ((tpos (turtle w), theading (turtle w)) # stk) bb w of
           Raised e w1 \<Rightarrow> Raised e w1
         | Returned (stk1, bb1) w1 \<Rightarrow>
             parse_axiom c (Suc (Suc (i + length pre))) post stk bb1
               (w1\<lparr>turtle := restore c (tpos (turtle w)) (theading (turtle w)) (turtle w1)\<rparr>))) \<and>
   (0 \<le> depth c \<and> axiom c = pre @ CHR '']'' # post \<and>
    parse_axiom c 0 pre [] ((0, 0), (0, 0)) (begin_call c w) = Returned ([], bb1) w1 \<longrightarrow>
      lindenmayer_system_rec c w = Raised (UnmatchedClosingBracket (length pre)) w1) \<and>
   (lindenmayer_system_rec c w = Returned r w' \<and> 0 \<le> depth c \<longrightarrow>
      (\<forall>n. count_list (take n (axiom c)) CHR '']'' \<le> count_list (take n (axiom c)) CHR ''['') \<and>
      (\<exists>ws. warned w' = warned w @ ws @
         (if count_list (axiom c) CHR ''['' \<noteq> count_list (axiom c) CHR '']''
          then [axiom c] else []))) \<and>
   (lindenmayer_system h c t0 s0 ws0 = Returned r w' \<and> 0 \<le> depth c \<longrightarrow>
      (\<forall>n. count_list (take n (axiom c)) CHR '']'' \<le> count_list (take n (axiom c)) CHR ''['') \<and>
      (\<exists>ws. warned w' = ws0 @ ws @
         (if count_list (axiom c) CHR ''['' \<noteq> count_list (axiom c) CHR '']''
          then [axiom c] else [])))"
proof -
  have rec: "(\<forall>n. count_list (take n (axiom c)) CHR '']'' \<le> count_list (take n (axiom c)) CHR ''['') \<and>
      (\<exists>ws. warned w' = warned w @ ws @
         (if count_list (axiom c) CHR ''['' \<noteq> count_list (axiom c) CHR '']''
          then [axiom c] else []))"
    if a: "lindenmayer_system_rec c w = Returned r w'" "0 \<le> depth c"
  proof -
    from a obtain stk bb w1 where
      pa: "parse_axiom c 0 (axiom c) [] ((0, 0), (0, 0)) (begin_call c w) = Returned (stk, bb) w1"
      and w': "w' = warn_unclosed c stk w1"
      by (auto simp: lindenmayer_system_rec.simps split: outcome.splits)
    from stored_states_height [OF pa]
    have h: "length stk + count_list (axiom c) CHR '']'' = count_list (axiom c) CHR ''[''"
      and p: "\<forall>n. count_list (take n (axiom c)) CHR '']'' \<le> count_list (take n (axiom c)) CHR ''[''"
      by simp_all
    from warned_grows(1) [OF pa] obtain ws where "warned w1 = warned w @ ws"
      by (auto simp: begin_call_def)
    moreover from h have "stk \<noteq> [] \<longleftrightarrow>
        count_list (axiom c) CHR ''['' \<noteq> count_list (axiom c) CHR '']''"
      by (cases stk) auto
    ultimately have "warned w' = warned w @ ws @
        (if count_list (axiom c) CHR ''['' \<noteq> count_list (axiom c) CHR '']'' then [axiom c] else [])"
      unfolding w' by (simp add: warn_unclosed_def)
    with p show ?thesis by blast
  qed
  have fatal: "lindenmayer_system_rec c w = Raised (UnmatchedClosingBracket (length pre)) w1"
    if "0 \<le> depth c" "axiom c = pre @ CHR '']'' # post"
      "parse_axiom c 0 pre [] ((0, 0), (0, 0)) (begin_call c w) = Returned ([], bb1) w1"
    using that
    by (simp add: lindenmayer_system_rec.simps parse_axiom_append parse_close_empty)
  show ?thesis
    using rec fatal matched_brackets [of pre c i post stk bb w]
      top_level_stored_states [of h c t0 s0 ws0 r w']
    by (simp only: parse_open parse_close_empty) blast
qed

theorem stored_states_are_per_call_witness:
  "lindenmayer_system_rec
     ((default_call ''X[F]['' [(''F'', Str ''F''), (''X'', Str ''[[F'')] 1 90)
        \<lparr>compression_factor := Factor 1, static_color := Some True\<rparr>)
     \<lparr>turtle = Turtle, screen = Screen example_host, warned = []\<rparr> =
   Returned ((0, 0), (20, 0))
     \<lparr>turtle = \<lparr>tpos = (10, 0), theading = 0, isdown = True,
                 tlog = [Forward 10, Forward 10, Penup, Goto 10 0, Seth 0, Pendown],
                 reached = [(10, 0), (20, 0)],
                 lines = [((0, 0), (10, 0)), ((10, 0), (20, 0))]\<rparr>,
      screen = Screen example_host, warned = [''[[F'', ''X[F]['']\<rparr> \<and>
   (\<forall>n. count_list (take n ''X[F]['') CHR '']'' \<le> count_list (take n ''X[F]['') CHR ''['') \<and>
   (\<exists>ws. [''[[F'', ''X[F][''] = [] @ ws @ [''X[F]['']) \<and>
   parse_axiom
     ((default_call ''X[F]['' [(''F'', Str ''F''), (''X'', Str ''[[F'')] 1 90)
        \<lparr>compression_factor := Factor 1, static_color := Some True\<rparr>)
     0 ''[]'' [] ((0, 0), (0, 0))
     \<lparr>turtle = Turtle\<lparr>tpos := (3, 4), theading := 45\<rparr>, screen = Screen example_host,
        warned = []\<rparr> =
   Returned ([], ((0, 0), (0, 0)))
     \<lparr>turtle = \<lparr>tpos = (3, 4), theading = 45, isdown = True,
                 tlog = [Penup, Goto 3 4, Seth 45, Pendown], reached = [], lines = []\<rparr>,
      screen = Screen example_host, warned = []\<rparr>"
proof -
  let ?c = "(default_call ''X[F]['' [(''F'', Str ''F''), (''X'', Str ''[[F'')] 1 90)
        \<lparr>compression_factor := Factor 1, static_color := Some True\<rparr>"
  let ?w = "\<lparr>turtle = Turtle, screen = Screen example_host, warned = []\<rparr>"
  let ?w' = "\<lparr>turtle = \<lparr>tpos = (10, 0), theading = 0, isdown = True,
                 tlog = [Forward 10, Forward 10, Penup, Goto 10 0, Seth 0, Pendown],
                 reached = [(10, 0), (20, 0)],
                 lines = [((0, 0), (10, 0)), ((10, 0), (20, 0))]\<rparr>,
      screen = Screen example_host, warned = [''[[F'', ''X[F]['']\<rparr>"
  let ?v = "\<lparr>turtle = Turtle\<lparr>tpos := (3, 4), theading := 45\<rparr>, screen = Screen example_host,
        warned = []\<rparr>"
  have run: "lindenmayer_system_rec ?c ?w = Returned ((0, 0), (20, 0)) ?w'"
    by (simp add: lindenmayer_system_rec.simps default_call_def char_defs screen_defs turtle_defs
          run_defs step_simps example_host_def Let_def py_mod_def)
  have d: "0 \<le> depth ?c" by (simp add: default_call_def)
  have ax: "axiom ?c = ''X[F]['' " by (simp add: default_call_def)
  note all = stored_states_are_per_call [where c = ?c and w = ?w and r = "((0, 0), (20, 0))"
      and w' = ?w']
  note pair = stored_states_are_per_call [where c = ?c and w = ?v and pre = "[]" and post = "[]"
      and i = 0 and stk = "[]" and bb = "((0, 0), (0, 0))", THEN conjunct2, THEN conjunct2,
      THEN conjunct1]
  from all run d have
    "(\<forall>n. count_list (take n (axiom ?c)) CHR '']'' \<le> count_list (take n (axiom ?c)) CHR ''['') \<and>
     (\<exists>ws. warned ?w' = warned ?w @ ws @
         (if count_list (axiom ?c) CHR ''['' \<noteq> count_list (axiom ?c) CHR '']''
          then [axiom ?c] else []))"
    by blast
  then have one: "(\<forall>n. count_list (take n ''X[F]['') CHR '']''
        \<le> count_list (take n ''X[F]['') CHR ''['') \<and>
      (\<exists>ws. [''[[F'', ''X[F][''] = [] @ ws @ [''X[F]['']) "
    unfolding ax by simp
  from pair have two: "parse_axiom ?c 0 ''[]'' [] ((0, 0), (0, 0)) ?v =
      Returned ([], ((0, 0), (0, 0)))
        \<lparr>turtle = \<lparr>tpos = (3, 4), theading = 45, isdown = True,
                   tlog = [Penup, Goto 3 4, Seth 45, Pendown], reached = [], lines = []\<rparr>,
         screen = Screen example_host, warned = []\<rparr>"
    by (simp add: restore_def default_call_def turtle_defs py_mod_def Let_def)
  from run one two show ?thesis by blast
qed

lemma validate_bracket_grammar:
  "validate ((default_call ''[F'' [(''F'', Str '']'')] 1 90)\<lparr>compression_factor := Factor 1\<rparr>)
     = None"
  by (simp add: validate_def default_call_def char_defs)

text \<open>
  Claim C2 as stated (one list shared by all levels, a closing bracket fatal only when
  no opening bracket of the whole invocation is unmatched) fails: the grammar
  \<open>{"F": "]"}\<close> with the axiom \<open>[F\<close> passes the validation, the top level stores a
  state at its bracket, and the closing bracket of the replacement, parsed one level
  down, is fatal at once.
\<close>

theorem closing_bracket_fatal_in_nested_call:
  "validate ((default_call ''[F'' [(''F'', Str '']'')] 1 90)\<lparr>compression_factor := Factor 1\<rparr>)
     = None \<and>
   lindenmayer_system example_host
     ((default_call ''[F'' [(''F'', Str '']'')] 1 90)\<lparr>compression_factor := Factor 1\<rparr>)
     None None [] =
   Raised (UnmatchedClosingBracket 0)
     \<lparr>turtle =
        \<lparr>tpos = (0, 0), theading = 90, isdown = True,
           tlog = [Hideturtle, Seth 90, Penup, Goto 0 0, Pendown, Color 255 255 255, Speed 0],
           reached = [], lines = []\<rparr>,
      screen =
        \<lparr>window_width = 960, window_height = 810,
           slog = [Title ''Lindenmayer System'', Colormode 255, Bgcolor 0 0 0, Tkraise,
                   TextTurtle 255 255 255, Tracer 0 0, Print ''Started drawing.'',
                   TextWrite ''Drawing...'']\<rparr>,
      warned = []\<rparr>"
  by (simp add: lindenmayer_system_rec.simps top_defs default_call_def char_defs screen_defs
        turtle_defs run_defs step_simps example_host_def Let_def)

subsection \<open>The returned extremes\<close>

lemma box_of_Nil: "box_of [] = ((0, 0), (0, 0))"
  by (simp add: box_of_def)

lemma Min_insert_origin:
  "finite S \<Longrightarrow> Min (insert (0::real) (insert a S)) = min a (Min (insert 0 S))"
  using Min_insert [of "insert 0 S" a] by (simp add: insert_commute)

lemma Max_insert_origin:
  "finite S \<Longrightarrow> Max (insert (0::real) (insert a S)) = max a (Max (insert 0 S))"
  using Max_insert [of "insert 0 S" a] by (simp add: insert_commute)

lemma Min_Un_origin:
  "finite A \<Longrightarrow> finite B \<Longrightarrow>
   Min (insert (0::real) (A \<union> B)) = min (Min (insert 0 B)) (Min (insert 0 A))"
proof -
  assume "finite A" "finite B"
  moreover have "insert (0::real) (A \<union> B) = insert 0 A \<union> insert 0 B" by auto
  ultimately show ?thesis by (simp add: Min_Un min.commute del: Un_insert_left Un_insert_right)
qed

lemma Max_Un_origin:
  "finite A \<Longrightarrow> finite B \<Longrightarrow>
   Max (insert (0::real) (A \<union> B)) = max (Max (insert 0 B)) (Max (insert 0 A))"
proof -
  assume "finite A" "finite B"
  moreover have "insert (0::real) (A \<union> B) = insert 0 A \<union> insert 0 B" by auto
  ultimately show ?thesis by (simp add: Max_Un max.commute del: Un_insert_left Un_insert_right)
qed

lemma box_of_extend: "extend (box_of qs) p = box_of (qs @ [p])"
  by (simp add: box_of_def extend_def Min_insert_origin Max_insert_origin
        del: Min_insert Max_insert)

lemma box_of_merge: "merge (box_of qs) (box_of ps) = box_of (qs @ ps)"
  by (simp add: box_of_def merge_def image_Un Min_Un_origin Max_Un_origin
        del: Min_insert Max_insert)

lemma move_forward_reached:
  "move_forward c i v bb w = Returned bb' w' \<Longrightarrow> extrem_cords c = None \<Longrightarrow>
   \<exists>p. reached (turtle w') = reached (turtle w) @ [p] \<and> bb' = extend bb p"
  by (auto simp: move_forward_def Let_def forward_def color_def
      split: option.splits if_splits fg_color_type.splits prod.splits)

lemma restore_reached: "reached (restore c p h t) = reached t"
  by (simp add: restore_def Let_def turtle_defs)

lemma begin_call_reached: "reached (turtle (begin_call c w)) = reached (turtle w)"
  by (simp add: begin_call_def suppress_drawing_def setup_turtle_def turtle_defs)

lemma box_is_hull:
  shows "parse_axiom c i cs stk bb w = Returned r w' \<Longrightarrow>
      extrem_cords c = None \<Longrightarrow> 0 \<le> depth c \<Longrightarrow> bb = box_of qs \<Longrightarrow>
      \<exists>ps. reached (turtle w') = reached (turtle w) @ ps \<and> snd r = box_of (qs @ ps)"
    and "lindenmayer_system_rec c w = Returned r2 w' \<Longrightarrow>
      extrem_cords c = None \<Longrightarrow> 0 \<le> depth c \<Longrightarrow>
      \<exists>ps. reached (turtle w') = reached (turtle w) @ ps \<and> r2 = box_of ps"
proof -
  let ?P = "\<lambda>(c::call) (i::nat) (cs::string) (stk::(cord \<times> real) list) (bb::cord \<times> cord)
      (w::world) (r::(cord \<times> real) list \<times> (cord \<times> cord)) (w'::world).
      extrem_cords c = None \<longrightarrow> 0 \<le> depth c \<longrightarrow> (\<forall>qs. bb = box_of qs \<longrightarrow>
      (\<exists>ps. reached (turtle w') = reached (turtle w) @ ps \<and> snd r = box_of (qs @ ps)))"
  let ?Q = "\<lambda>(c::call) (w::world) (r::cord \<times> cord) (w'::world).
      extrem_cords c = None \<longrightarrow> 0 \<le> depth c \<longrightarrow>
      (\<exists>ps. reached (turtle w') = reached (turtle w) @ ps \<and> r = box_of ps)"
  have ind: "(parse_axiom c i cs stk bb w = Returned r w' \<longrightarrow> ?P c i cs stk bb w r w') \<and>
        (lindenmayer_system_rec c w = Returned r2 w' \<longrightarrow> ?Q c w r2 w')"
  proof -
    have Nil: "?P c i [] stk bb w (stk, bb) w" for c :: "call" and i :: "nat" and stk :: "(cord \<times> real) list" and bb :: "cord \<times> cord" and w :: "world" by simp
    have Open: "?P c (Suc i) rest ((tpos (turtle w), theading (turtle w)) # stk) bb w r w' \<Longrightarrow>
        ?P c i (CHR ''['' # rest) stk bb w r w'" for c :: "call" and i :: "nat" and rest :: "string" and stk :: "(cord \<times> real) list" and bb :: "cord \<times> cord" and w :: "world" and r :: "(cord \<times> real) list \<times> (cord \<times> cord)" and w' :: "world" by simp
    have Close: "?P c (Suc i) rest stk bb (w\<lparr>turtle := restore c p h (turtle w)\<rparr>) r w' \<Longrightarrow>
        ?P c i (CHR '']'' # rest) ((p, h) # stk) bb w r w'" for c :: "call" and i :: "nat" and rest :: "string" and p :: "cord" and h :: "real" and stk :: "(cord \<times> real) list" and bb :: "cord \<times> cord" and w :: "world" and r :: "(cord \<times> real) list \<times> (cord \<times> cord)" and w' :: "world"
      by (simp add: restore_reached)
    have Plus: "?P c (Suc i) rest stk bb (w\<lparr>turtle := left (angle c) (turtle w)\<rparr>) r w' \<Longrightarrow>
        ?P c i (CHR ''+'' # rest) stk bb w r w'" for c :: "call" and i :: "nat" and rest :: "string" and stk :: "(cord \<times> real) list" and bb :: "cord \<times> cord" and w :: "world" and r :: "(cord \<times> real) list \<times> (cord \<times> cord)" and w' :: "world"
      by (simp add: left_def)
    have Minus: "?P c (Suc i) rest stk bb (w\<lparr>turtle := right (angle c) (turtle w)\<rparr>) r w' \<Longrightarrow>
        ?P c i (CHR ''-'' # rest) stk bb w r w'" for c :: "call" and i :: "nat" and rest :: "string" and stk :: "(cord \<times> real) list" and bb :: "cord \<times> cord" and w :: "world" and r :: "(cord \<times> real) list \<times> (cord \<times> cord)" and w' :: "world"
      by (simp add: right_def)
    have Forward: "move_forward c i [ch] bb w = Returned bb1 w1 \<Longrightarrow>
        ?P c (Suc i) rest stk bb1 w1 r w' \<Longrightarrow> ?P c i (ch # rest) stk bb w r w'"
      for c :: "call" and i :: "nat" and ch :: "char" and rest :: "string" and stk :: "(cord \<times> real) list" and bb :: "cord \<times> cord" and w :: "world" and bb1 :: "cord \<times> cord" and w1 :: "world" and r :: "(cord \<times> real) list \<times> (cord \<times> cord)" and w' :: "world"
    proof (intro impI allI)
      fix qs
      assume mf: "move_forward c i [ch] bb w = Returned bb1 w1"
        and ih: "?P c (Suc i) rest stk bb1 w1 r w'"
        and e: "extrem_cords c = None" and d: "0 \<le> depth c" and bb: "bb = box_of qs"
      from move_forward_reached [OF mf e] obtain p where
        p: "reached (turtle w1) = reached (turtle w) @ [p]" "bb1 = extend bb p" by blast
      with bb have "bb1 = box_of (qs @ [p])" by (simp add: box_of_extend)
      with ih e d obtain ps where "reached (turtle w') = reached (turtle w1) @ ps"
        "snd r = box_of ((qs @ [p]) @ ps)" by blast
      with p show "\<exists>ps. reached (turtle w') = reached (turtle w) @ ps \<and> snd r = box_of (qs @ ps)"
        by (intro exI [of _ "p # ps"]) simp
    qed
    have Expand: "?Q (c\<lparr>axiom := replacement, depth := depth c - 1,
            initial_window_size := None, screen_icon := None\<rparr>) w ret w1 \<Longrightarrow> depth c \<noteq> 0 \<Longrightarrow>
        ?P c (Suc i) rest stk (if extrem_cords c = None then merge bb ret else bb) w1 r w' \<Longrightarrow>
        ?P c i (ch # rest) stk bb w r w'"
      for c :: "call" and i :: "nat" and ch :: "char" and rest :: "string" and stk :: "(cord \<times> real) list" and bb :: "cord \<times> cord" and w :: "world" and replacement :: "string" and ret :: "cord \<times> cord" and w1 :: "world" and r :: "(cord \<times> real) list \<times> (cord \<times> cord)" and w' :: "world"
    proof (intro impI allI)
      fix qs
      assume q: "?Q (c\<lparr>axiom := replacement, depth := depth c - 1,
            initial_window_size := None, screen_icon := None\<rparr>) w ret w1"
        and nz: "depth c \<noteq> 0"
        and ih: "?P c (Suc i) rest stk (if extrem_cords c = None then merge bb ret else bb) w1 r w'"
        and e: "extrem_cords c = None" and d: "0 \<le> depth c" and bb: "bb = box_of qs"
      from q e d nz obtain ps1 where
        ps1: "reached (turtle w1) = reached (turtle w) @ ps1" "ret = box_of ps1" by auto
      with bb e have "(if extrem_cords c = None then merge bb ret else bb) = box_of (qs @ ps1)"
        by (simp add: box_of_merge)
      with ih e d obtain ps where "reached (turtle w') = reached (turtle w1) @ ps"
        "snd r = box_of ((qs @ ps1) @ ps)" by blast
      with ps1 show "\<exists>ps. reached (turtle w') = reached (turtle w) @ ps \<and> snd r = box_of (qs @ ps)"
        by (intro exI [of _ "ps1 @ ps"]) simp
    qed
    have Negative: "depth c < 0 \<Longrightarrow> ?Q c w (tpos (turtle w), tpos (turtle w)) w" for c :: "call" and w :: "world"
      by simp
    have Call: "?P c 0 (axiom c) [] ((0, 0), (0, 0)) (begin_call c w) (stk, bb) w1 \<Longrightarrow>
        ?Q c w (returned_cords c bb) (warn_unclosed c stk w1)" for c :: "call" and w :: "world" and stk :: "(cord \<times> real) list" and bb :: "cord \<times> cord" and w1 :: "world"
    proof (intro impI)
      assume ih: "?P c 0 (axiom c) [] ((0, 0), (0, 0)) (begin_call c w) (stk, bb) w1"
        and e: "extrem_cords c = None" and d: "0 \<le> depth c"
      from ih e d box_of_Nil [symmetric] obtain ps where
        "reached (turtle w1) = reached (turtle (begin_call c w)) @ ps" "bb = box_of ([] @ ps)"
        by fastforce
      with e show "\<exists>ps. reached (turtle (warn_unclosed c stk w1)) = reached (turtle w) @ ps \<and>
          returned_cords c bb = box_of ps"
        by (auto simp: begin_call_reached returned_cords_def warn_unclosed_def)
    qed
    show ?thesis
    proof (rule conjI; rule impI)
      assume a: "parse_axiom c i cs stk bb w = Returned r w'"
      show "?P c i cs stk bb w r w'"
        apply (rule interpreter_induct(1) [where P = ?P and Q = ?Q, OF _ _ _ _ _ _ _ _ _ _ a])
        subgoal by (rule Nil)
        subgoal by (rule Open)
        subgoal by (rule Close)
        subgoal by (rule Plus)
        subgoal by (rule Minus)
        subgoal by (rule Forward)
        subgoal by simp
        subgoal by (rule Expand)
        subgoal by (rule Negative)
        subgoal by (rule Call)
        done
    next
      assume a: "lindenmayer_system_rec c w = Returned r2 w'"
      show "?Q c w r2 w'"
        apply (rule interpreter_induct(2) [where P = ?P and Q = ?Q, OF _ _ _ _ _ _ _ _ _ _ a])
        subgoal by (rule Nil)
        subgoal by (rule Open)
        subgoal by (rule Close)
        subgoal by (rule Plus)
        subgoal by (rule Minus)
        subgoal by (rule Forward)
        subgoal by simp
        subgoal by (rule Expand)
        subgoal by (rule Negative)
        subgoal by (rule Call)
        done
    qed
  qed
  from ind show "parse_axiom c i cs stk bb w = Returned r w' \<Longrightarrow>
      extrem_cords c = None \<Longrightarrow> 0 \<le> depth c \<Longrightarrow> bb = box_of qs \<Longrightarrow>
      \<exists>ps. reached (turtle w') = reached (turtle w) @ ps \<and> snd r = box_of (qs @ ps)"
    by blast
  from ind show "lindenmayer_system_rec c w = Returned r2 w' \<Longrightarrow>
      extrem_cords c = None \<Longrightarrow> 0 \<le> depth c \<Longrightarrow>
      \<exists>ps. reached (turtle w') = reached (turtle w) @ ps \<and> r2 = box_of ps"
    by blast
qed

lemma draw_box:
  assumes "draw c w = Returned r w'" and "extrem_cords c = None" and "0 \<le> depth c"
  shows "\<exists>ps. reached (turtle w') = reached (turtle w) @ ps \<and> r = box_of ps"
proof -
  let ?w = "w\<lparr>turtle := suppress_drawing c (turtle w),
      screen := (if instant_draw c
                 then screen_do (TextWrite ''Drawing...'') (screen_do (Print ''Started drawing.'') (screen w))
                 else screen_do (Print ''Started drawing.'') (screen w))\<rparr>"
  from assms(1) obtain stk bb w1 where
    pa: "parse_axiom c 0 (axiom c) [] ((0, 0), (0, 0)) ?w = Returned (stk, bb) w1"
    and r: "r = returned_cords c bb" and t: "turtle w' = turtle w1"
    by (auto simp: draw_def Let_def warn_unclosed_def split: outcome.splits if_splits)
  from box_is_hull(1) [OF pa assms(2,3) box_of_Nil [symmetric]]
  obtain ps where "reached (turtle w1) = reached (turtle ?w) @ ps" "bb = box_of ps" by auto
  with r t assms(2) show ?thesis
    by (auto simp: returned_cords_def suppress_drawing_def turtle_defs)
qed

lemma configure_facts:
  assumes "configure h c w = (c1, w1)"
  shows "extrem_cords c1 = None" "depth c1 = depth c" "compression_factor c1 = compression_factor c"
    "reached (turtle w1) = reached (turtle w)"
  using assms
  by (auto simp: configure_def Let_def turtle_defs split: fg_color_type.splits prod.splits)

text \<open>
  Claim C7, as the code has it. The running extremes start at \<open>0\<close> (line 224), in
  every call. So a call that returns, of a depth that is not negative and with no
  extremes passed in, returns the smallest rectangle that contains the origin
  \<open>(0, 0)\<close> and the positions \<open>ps\<close> the turtle reached by the forward movements of
  that call and of the calls below it. The same holds for a top-level call with a fixed
  compression factor.
\<close>

theorem returned_box_contains_origin:
  "(lindenmayer_system_rec c w = Returned r w' \<and> extrem_cords c = None \<and> 0 \<le> depth c \<longrightarrow>
      (\<exists>ps. reached (turtle w') = reached (turtle w) @ ps \<and> r = box_of ps)) \<and>
   (lindenmayer_system h c t0 s0 ws = Returned r w' \<and> compression_factor c = Factor f \<and>
      0 \<le> depth c \<longrightarrow>
      (\<exists>ps. reached (turtle w') = reached (case t0 of None \<Rightarrow> Turtle | Some t \<Rightarrow> t) @ ps \<and>
            r = box_of ps))"
proof (rule conjI; rule impI)
  assume "lindenmayer_system_rec c w = Returned r w' \<and> extrem_cords c = None \<and> 0 \<le> depth c"
  then show "\<exists>ps. reached (turtle w') = reached (turtle w) @ ps \<and> r = box_of ps"
    using box_is_hull(2) by blast
next
  let ?t = "case t0 of None \<Rightarrow> Turtle | Some t \<Rightarrow> t"
  let ?s = "case s0 of None \<Rightarrow> open_screen h (screen_icon c) | Some s \<Rightarrow> s"
  let ?w1 = "\<lparr>turtle = setup_turtle c ?t, screen = ?s, warned = ws\<rparr>"
  assume a: "lindenmayer_system h c t0 s0 ws = Returned r w' \<and> compression_factor c = Factor f \<and>
      0 \<le> depth c"
  obtain c1 w2 where cf: "configure h c ?w1 = (c1, w2)" by (cases "configure h c ?w1")
  note facts = configure_facts [OF cf]
  from a cf facts have dr: "draw (compress c1 f) w2 = Returned r w'"
    by (auto simp: lindenmayer_system_def Let_def split: option.splits outcome.splits)
  have "extrem_cords (compress c1 f) = None" "0 \<le> depth (compress c1 f)"
    using facts a by (simp_all add: compress_def)
  from draw_box [OF dr this] facts(4) show
    "\<exists>ps. reached (turtle w') = reached ?t @ ps \<and> r = box_of ps"
    by (simp add: setup_turtle_draws_nothing)
qed

lemma single_forward_run:
  "lindenmayer_system example_host
     ((default_call ''F'' [(''F'', Str ''F'')] 0 90)\<lparr>compression_factor := Factor 1\<rparr>)
     None None [] =
   Returned ((0, 0), (0, 10))
     \<lparr>turtle =
        \<lparr>tpos = (0, 10), theading = 90, isdown = True,
           tlog = [Hideturtle, Seth 90, Penup, Goto 0 0, Pendown, Color 255 255 255, Speed 0,
                   Forward 10],
           reached = [(0, 10)], lines = [((0, 0), 0, 10)]\<rparr>,
      screen =
        \<lparr>window_width = 960, window_height = 810,
           slog = [Title ''Lindenmayer System'', Colormode 255, Bgcolor 0 0 0, Tkraise,
                   TextTurtle 255 255 255, Tracer 0 0, Print ''Started drawing.'',
                   TextWrite ''Drawing...'', TextClear, Update, Print ''Finished drawing.'',
                   Exitonclick]\<rparr>,
      warned = []\<rparr>"
  by (simp add: lindenmayer_system_rec.simps top_defs default_call_def char_defs screen_defs
        turtle_defs run_defs step_simps example_host_def Let_def)

theorem returned_box_contains_origin_witness:
  "lindenmayer_system example_host
     ((default_call ''F'' [(''F'', Str ''F'')] 0 90)\<lparr>compression_factor := Factor 1\<rparr>)
     None None [] =
   Returned ((0, 0), (0, 10))
     \<lparr>turtle =
        \<lparr>tpos = (0, 10), theading = 90, isdown = True,
           tlog = [Hideturtle, Seth 90, Penup, Goto 0 0, Pendown, Color 255 255 255, Speed 0,
                   Forward 10],
           reached = [(0, 10)], lines = [((0, 0), 0, 10)]\<rparr>,
      screen =
        \<lparr>window_width = 960, window_height = 810,
           slog = [Title ''Lindenmayer System'', Colormode 255, Bgcolor 0 0 0, Tkraise,
                   TextTurtle 255 255 255, Tracer 0 0, Print ''Started drawing.'',
                   TextWrite ''Drawing...'', TextClear, Update, Print ''Finished drawing.'',
                   Exitonclick]\<rparr>,
      warned = []\<rparr> \<and>
   (\<exists>ps. [(0, 10)] = reached Turtle @ ps \<and> ((0, 0), (0, 10)) = box_of ps)"
proof -
  let ?c = "(default_call ''F'' [(''F'', Str ''F'')] 0 90)\<lparr>compression_factor := Factor 1\<rparr>"
  have c: "compression_factor ?c = Factor 1" "0 \<le> depth ?c" by (simp_all add: default_call_def)
  let ?W = "\<lparr>turtle =
        \<lparr>tpos = (0, 10), theading = 90, isdown = True,
           tlog = [Hideturtle, Seth 90, Penup, Goto 0 0, Pendown, Color 255 255 255, Speed 0,
                   Forward 10],
           reached = [(0, 10)], lines = [((0, 0), 0, 10)]\<rparr>,
      screen =
        \<lparr>window_width = 960, window_height = 810,
           slog = [Title ''Lindenmayer System'', Colormode 255, Bgcolor 0 0 0, Tkraise,
                   TextTurtle 255 255 255, Tracer 0 0, Print ''Started drawing.'',
                   TextWrite ''Drawing...'', TextClear, Update, Print ''Finished drawing.'',
                   Exitonclick]\<rparr>,
      warned = []\<rparr>"
  note inst = returned_box_contains_origin [where h = example_host and c = ?c and ?t0.0 = None
      and ?s0.0 = None and ws = "[]" and f = 1 and r = "((0, 0), (0, 10))" and w' = ?W,
      THEN conjunct2]
  from inst single_forward_run c
  have "\<exists>ps. reached (turtle ?W) = reached Turtle @ ps \<and> ((0, 0), (0, 10)) = box_of ps"
    by simp
  then show ?thesis by (simp add: single_forward_run)
qed

text \<open>
  Claim C7 as stated (exactly the minimum and maximum over the reached positions, and no
  larger) fails: the axiom \<open>F\<close> at depth 0 reaches the one position \<open>(0, 10)\<close>, and the
  call returns the corners \<open>(0, 0)\<close> and \<open>(0, 10)\<close>.
\<close>

theorem returned_box_larger_than_endpoints:
  "\<exists>w'. lindenmayer_system example_host
        ((default_call ''F'' [(''F'', Str ''F'')] 0 90)\<lparr>compression_factor := Factor 1\<rparr>)
        None None [] = Returned ((0, 0), (0, 10)) w' \<and>
      reached (turtle w') = [(0, 10)] \<and>
      endpoints_rectangle (reached (turtle w')) = ((0, 10), (0, 10)) \<and>
      ((0, 0), (0, 10)) \<noteq> endpoints_rectangle (reached (turtle w'))"
  unfolding single_forward_run by (simp add: endpoints_rectangle_def)

subsection \<open>Forward movements and the depth of the expansion\<close>

lemma forward_count_symbol:
  "\<not> char_isupper ch \<Longrightarrow> forward_count vs n (ch # s) = forward_count vs n s"
  by (cases n) (simp_all add: variable_of_def)

lemma forward_count_symbols [simp]:
  "forward_count vs n (CHR ''['' # s) = forward_count vs n s"
  "forward_count vs n (CHR '']'' # s) = forward_count vs n s"
  "forward_count vs n (CHR ''+'' # s) = forward_count vs n s"
  "forward_count vs n (CHR ''-'' # s) = forward_count vs n s"
  by (simp_all add: forward_count_symbol char_isupper_def)

lemma move_forward_count:
  "move_forward c i v bb w = Returned bb' w' \<Longrightarrow>
   length (reached (turtle w')) = Suc (length (reached (turtle w)))"
  by (auto simp: move_forward_def Let_def forward_def color_def
      split: option.splits if_splits fg_color_type.splits prod.splits)

lemma reached_count:
  shows "parse_axiom c i cs stk bb w = Returned r w' \<Longrightarrow> 0 \<le> depth c \<Longrightarrow>
      length (reached (turtle w')) =
        length (reached (turtle w)) + forward_count (vars c) (nat (depth c)) cs"
    and "lindenmayer_system_rec c w = Returned r2 w' \<Longrightarrow> 0 \<le> depth c \<Longrightarrow>
      length (reached (turtle w')) =
        length (reached (turtle w)) + forward_count (vars c) (nat (depth c)) (axiom c)"
proof -
  let ?P = "\<lambda>(c::call) (i::nat) (cs::string) (stk::(cord \<times> real) list) (bb::cord \<times> cord)
      (w::world) (r::(cord \<times> real) list \<times> (cord \<times> cord)) (w'::world).
      0 \<le> depth c \<longrightarrow> length (reached (turtle w')) =
        length (reached (turtle w)) + forward_count (vars c) (nat (depth c)) cs"
  let ?Q = "\<lambda>(c::call) (w::world) (r::cord \<times> cord) (w'::world).
      0 \<le> depth c \<longrightarrow> length (reached (turtle w')) =
        length (reached (turtle w)) + forward_count (vars c) (nat (depth c)) (axiom c)"
  have ind: "(parse_axiom c i cs stk bb w = Returned r w' \<longrightarrow> ?P c i cs stk bb w r w') \<and>
        (lindenmayer_system_rec c w = Returned r2 w' \<longrightarrow> ?Q c w r2 w')"
  proof (rule conjI; rule impI)
    assume a: "parse_axiom c i cs stk bb w = Returned r w'"
    show "?P c i cs stk bb w r w'"
      apply (rule interpreter_induct(1) [where P = ?P and Q = ?Q, OF _ _ _ _ _ _ _ _ _ _ a])
      subgoal by simp
      subgoal by simp
      subgoal by (simp add: restore_reached)
      subgoal by (simp add: left_def)
      subgoal by (simp add: right_def)
      subgoal by (simp add: variable_of_def move_forward_count)
      subgoal by (simp add: variable_of_def)
      subgoal for c i ch rest stk bb w replacement drw ret w1 r w'
        by (cases "nat (depth c)") (auto simp: variable_of_def nat_diff_distrib)
      subgoal by simp
      subgoal by (simp add: begin_call_reached warn_unclosed_def)
      done
  next
    assume a: "lindenmayer_system_rec c w = Returned r2 w'"
    show "?Q c w r2 w'"
      apply (rule interpreter_induct(2) [where P = ?P and Q = ?Q, OF _ _ _ _ _ _ _ _ _ _ a])
      subgoal by simp
      subgoal by simp
      subgoal by (simp add: restore_reached)
      subgoal by (simp add: left_def)
      subgoal by (simp add: right_def)
      subgoal by (simp add: variable_of_def move_forward_count)
      subgoal by (simp add: variable_of_def)
      subgoal for c i ch rest stk bb w replacement drw ret w1 r w'
        by (cases "nat (depth c)") (auto simp: variable_of_def nat_diff_distrib)
      subgoal by simp
      subgoal by (simp add: begin_call_reached warn_unclosed_def)
      done
  qed
  from ind show "parse_axiom c i cs stk bb w = Returned r w' \<Longrightarrow> 0 \<le> depth c \<Longrightarrow>
      length (reached (turtle w')) =
        length (reached (turtle w)) + forward_count (vars c) (nat (depth c)) cs"
    by blast
  from ind show "lindenmayer_system_rec c w = Returned r2 w' \<Longrightarrow> 0 \<le> depth c \<Longrightarrow>
      length (reached (turtle w')) =
        length (reached (turtle w)) + forward_count (vars c) (nat (depth c)) (axiom c)"
    by blast
qed

lemma find_variable_replacement:
  "find_variable vs k ch = Some (r, d) \<Longrightarrow> \<exists>(key, p) \<in> set vs. replacement_of p = r"
proof (induction vs arbitrary: k)
  case Nil
  then show ?case by simp
next
  case (Cons a vs)
  obtain var p where a: "a = (var, p)" by (cases a)
  show ?case
  proof (cases "var = [ch]")
    case True
    with Cons.prems a have "replacement_of p = r" by (cases p) auto
    with a show ?thesis by auto
  next
    case False
    with Cons.prems a have "find_variable vs (Suc k) ch = Some (r, d)"
      by (cases p) auto
    from Cons.IH [OF this] show ?thesis by auto
  qed
qed

lemma doubling_replacement:
  "doubling vs \<Longrightarrow> variable_of vs ch = Some (r, d) \<Longrightarrow> 2 \<le> forward_count vs 0 r"
  using find_variable_replacement [of vs 0 ch r d]
  by (auto simp: doubling_def variable_of_def list_all_iff split: if_splits)

lemma forward_count_le_var_count: "forward_count vs 0 s \<le> var_count vs s"
  by (induction s) (auto simp: var_count_def split: option.splits bool.splits)

lemma forward_count_grows:
  "doubling vs \<Longrightarrow> forward_count vs n s + var_count vs s \<le> forward_count vs (Suc n) s"
proof (induction n arbitrary: s)
  case 0
  show ?case
  proof (induction s)
    case Nil
    show ?case by (simp add: var_count_def)
  next
    case (Cons ch s)
    show ?case
    proof (cases "variable_of vs ch")
      case None
      with Cons show ?thesis by (simp add: var_count_def)
    next
      case (Some p)
      obtain r d where p: "p = (r, d)" by (cases p)
      from doubling_replacement [OF 0 Some [unfolded p]] Cons Some p show ?thesis
        by (cases d) (simp_all add: var_count_def)
    qed
  qed
next
  case (Suc n)
  show ?case
  proof (induction s)
    case Nil
    show ?case by (simp add: var_count_def)
  next
    case (Cons ch s)
    show ?case
    proof (cases "variable_of vs ch")
      case None
      with Cons show ?thesis by (simp add: var_count_def)
    next
      case (Some p)
      obtain r d where p: "p = (r, d)" by (cases p)
      have "2 \<le> var_count vs r"
        using doubling_replacement [OF Suc.prems Some [unfolded p]]
          forward_count_le_var_count [of vs r] by simp
      with Suc.IH [OF Suc.prems, of r] have "forward_count vs n r < forward_count vs (Suc n) r"
        by simp
      with Cons Some p show ?thesis by (simp add: var_count_def)
    qed
  qed
qed

lemma forward_count_strict:
  assumes "doubling vs" and "has_variable vs s"
  shows "forward_count vs n s < forward_count vs (Suc n) s"
proof -
  from assms(2) have "0 < var_count vs s"
    by (auto simp: has_variable_def var_count_def list_ex_iff filter_empty_conv)
  with forward_count_grows [OF assms(1), of n s] show ?thesis by simp
qed

lemma draw_count:
  assumes "draw c w = Returned r w'" and "0 \<le> depth c"
  shows "length (reached (turtle w')) =
         length (reached (turtle w)) + forward_count (vars c) (nat (depth c)) (axiom c)"
proof -
  let ?w = "w\<lparr>turtle := suppress_drawing c (turtle w),
      screen := (if instant_draw c
                 then screen_do (TextWrite ''Drawing...'') (screen_do (Print ''Started drawing.'') (screen w))
                 else screen_do (Print ''Started drawing.'') (screen w))\<rparr>"
  from assms(1) obtain stk bb w1 where
    pa: "parse_axiom c 0 (axiom c) [] ((0, 0), (0, 0)) ?w = Returned (stk, bb) w1"
    and t: "turtle w' = turtle w1"
    by (auto simp: draw_def Let_def warn_unclosed_def split: outcome.splits if_splits)
  from reached_count(1) [OF pa assms(2)] t show ?thesis
    by (simp add: suppress_drawing_def turtle_defs)
qed

lemma configure_grammar:
  assumes "configure h c w = (c1, w1)"
  shows "vars c1 = vars c" "axiom c1 = axiom c"
  using assms
  by (auto simp: configure_def Let_def split: fg_color_type.splits prod.splits)

lemma auto_adjust_grammar:
  assumes "auto_adjust c w = Returned c2 w3"
  shows "vars c2 = vars c" "axiom c2 = axiom c" "depth c2 = depth c"
    "reached (turtle w3) = reached (turtle w)"
  using assms
  by (auto simp: auto_adjust_def Let_def turtle_defs
      split: outcome.splits option.splits prod.splits if_splits)

lemma top_level_count:
  assumes "lindenmayer_system h c t0 s0 ws = Returned r w'" and "0 \<le> depth c"
  shows "length (reached (turtle w')) =
         length (reached (case t0 of None \<Rightarrow> Turtle | Some t \<Rightarrow> t))
           + forward_count (vars c) (nat (depth c)) (axiom c)"
proof -
  let ?t = "case t0 of None \<Rightarrow> Turtle | Some t \<Rightarrow> t"
  let ?s = "case s0 of None \<Rightarrow> open_screen h (screen_icon c) | Some s \<Rightarrow> s"
  let ?w1 = "\<lparr>turtle = setup_turtle c ?t, screen = ?s, warned = ws\<rparr>"
  obtain c1 w2 where cf: "configure h c ?w1 = (c1, w2)" by (cases "configure h c ?w1")
  note facts = configure_facts [OF cf] configure_grammar [OF cf]
  from assms cf obtain c2 w3 where
    dr: "draw c2 w3 = Returned r w'" and
    c2: "(case compression_factor c1 of Auto \<Rightarrow> auto_adjust c1 w2
          | Factor f \<Rightarrow> Returned (compress c1 f) w2) = Returned c2 w3"
    by (auto simp: lindenmayer_system_def Let_def split: option.splits outcome.splits)
  have g: "vars c2 = vars c \<and> axiom c2 = axiom c \<and> depth c2 = depth c \<and>
      reached (turtle w3) = reached (turtle w2)"
  proof (cases "compression_factor c1")
    case Auto
    with c2 have "auto_adjust c1 w2 = Returned c2 w3" by simp
    from auto_adjust_grammar [OF this] facts show ?thesis by simp
  next
    case (Factor f)
    with c2 have "c2 = compress c1 f" "w3 = w2" by simp_all
    with facts show ?thesis by (simp add: compress_def)
  qed
  with assms(2) have "0 \<le> depth c2" by simp
  from draw_count [OF dr this] g facts(4) show ?thesis
    by (simp add: setup_turtle_draws_nothing)
qed

text \<open>
  Claim C9, as the code has it. A call of a depth that is not negative makes as many
  forward movements as its axiom, expanded to that depth, holds draws-forward variables
  (\<open>forward_count\<close>). So when every replacement of the grammar holds at least two
  draws-forward variables and the axiom holds at least one variable, and the calls of
  depth \<open>d\<close> and of depth \<open>d + 1\<close> both return, the call of depth \<open>d + 1\<close> makes strictly
  more forward movements than the call of depth \<open>d\<close>. This holds for the recursive call
  and for the top-level call.
\<close>

theorem more_forward_movements_one_level_deeper:
  "doubling (vars c) \<and> has_variable (vars c) (axiom c) \<and> 0 \<le> depth c \<longrightarrow>
     (lindenmayer_system_rec c w = Returned r1 w1 \<and>
      lindenmayer_system_rec (c\<lparr>depth := depth c + 1\<rparr>) w = Returned r2 w2 \<longrightarrow>
        length (reached (turtle w1)) < length (reached (turtle w2))) \<and>
     (lindenmayer_system h c t0 s0 ws = Returned r1 w1 \<and>
      lindenmayer_system h (c\<lparr>depth := depth c + 1\<rparr>) t0 s0 ws = Returned r2 w2 \<longrightarrow>
        length (reached (turtle w1)) < length (reached (turtle w2)))"
proof (rule impI)
  assume a: "doubling (vars c) \<and> has_variable (vars c) (axiom c) \<and> 0 \<le> depth c"
  then have n: "nat (depth c + 1) = Suc (nat (depth c))" by (simp add: nat_add_distrib)
  from a have lt: "forward_count (vars c) (nat (depth c)) (axiom c)
      < forward_count (vars c) (Suc (nat (depth c))) (axiom c)"
    using forward_count_strict by blast
  show "(lindenmayer_system_rec c w = Returned r1 w1 \<and>
      lindenmayer_system_rec (c\<lparr>depth := depth c + 1\<rparr>) w = Returned r2 w2 \<longrightarrow>
        length (reached (turtle w1)) < length (reached (turtle w2))) \<and>
     (lindenmayer_system h c t0 s0 ws = Returned r1 w1 \<and>
      lindenmayer_system h (c\<lparr>depth := depth c + 1\<rparr>) t0 s0 ws = Returned r2 w2 \<longrightarrow>
        length (reached (turtle w1)) < length (reached (turtle w2)))"
  proof (rule conjI; rule impI)
    assume b: "lindenmayer_system_rec c w = Returned r1 w1 \<and>
      lindenmayer_system_rec (c\<lparr>depth := depth c + 1\<rparr>) w = Returned r2 w2"
    from b a reached_count(2) [of c w r1 w1]
      reached_count(2) [of "c\<lparr>depth := depth c + 1\<rparr>" w r2 w2] n lt
    show "length (reached (turtle w1)) < length (reached (turtle w2))" by simp
  next
    assume b: "lindenmayer_system h c t0 s0 ws = Returned r1 w1 \<and>
      lindenmayer_system h (c\<lparr>depth := depth c + 1\<rparr>) t0 s0 ws = Returned r2 w2"
    from b a top_level_count [of h c t0 s0 ws r1 w1]
      top_level_count [of h "c\<lparr>depth := depth c + 1\<rparr>" t0 s0 ws r2 w2] n lt
    show "length (reached (turtle w1)) < length (reached (turtle w2))" by simp
  qed
qed

lemmas eval_defs =
  lindenmayer_system_rec.simps top_defs default_call_def char_defs screen_defs
  turtle_defs run_defs step_simps example_host_def Let_def

lemma doubled_forward_runs:
  "\<exists>r w'. lindenmayer_system_rec
       ((default_call ''F'' [(''F'', Str ''FF'')] 0 90)\<lparr>static_color := Some True\<rparr>)
       \<lparr>turtle = Turtle, screen = Screen example_host, warned = []\<rparr> = Returned r w' \<and>
     reached (turtle w') = [(10, 0)]"
  "\<exists>r w'. lindenmayer_system_rec
       ((default_call ''F'' [(''F'', Str ''FF'')] 0 90)\<lparr>static_color := Some True, depth := 1\<rparr>)
       \<lparr>turtle = Turtle, screen = Screen example_host, warned = []\<rparr> = Returned r w' \<and>
     reached (turtle w') = [(10, 0), (20, 0)]"
  by (simp_all add: eval_defs)

theorem more_forward_movements_one_level_deeper_witness:
  "doubling [(''F'', Str ''FF'')] \<and> has_variable [(''F'', Str ''FF'')] ''F'' \<and>
   (\<exists>r1 w1 r2 w2.
      lindenmayer_system_rec
        ((default_call ''F'' [(''F'', Str ''FF'')] 0 90)\<lparr>static_color := Some True\<rparr>)
        \<lparr>turtle = Turtle, screen = Screen example_host, warned = []\<rparr> = Returned r1 w1 \<and>
      lindenmayer_system_rec
        ((default_call ''F'' [(''F'', Str ''FF'')] 0 90)\<lparr>static_color := Some True, depth := 1\<rparr>)
        \<lparr>turtle = Turtle, screen = Screen example_host, warned = []\<rparr> = Returned r2 w2 \<and>
      length (reached (turtle w1)) < length (reached (turtle w2)))"
proof -
  let ?c = "(default_call ''F'' [(''F'', Str ''FF'')] 0 90)\<lparr>static_color := Some True\<rparr>"
  let ?w = "\<lparr>turtle = Turtle, screen = Screen example_host, warned = []\<rparr>"
  have v: "vars ?c = [(''F'', Str ''FF'')]" "axiom ?c = ''F''" by (simp_all add: default_call_def)
  have g: "doubling (vars ?c)" "has_variable (vars ?c) (axiom ?c)" "0 \<le> depth ?c"
    by (auto simp: default_call_def doubling_def has_variable_def variable_of_def char_defs)
  have d: "?c\<lparr>depth := depth ?c + 1\<rparr> = ?c\<lparr>depth := 1\<rparr>" by (simp add: default_call_def)
  from doubled_forward_runs obtain r1 w1 r2 w2 where
    r1: "lindenmayer_system_rec ?c ?w = Returned r1 w1" and
    r2: "lindenmayer_system_rec (?c\<lparr>depth := 1\<rparr>) ?w = Returned r2 w2"
    by blast
  from more_forward_movements_one_level_deeper [where c = ?c and w = ?w and ?r1.0 = r1
      and ?w1.0 = w1 and ?r2.0 = r2 and ?w2.0 = w2] g r1 r2 d
  have lt: "length (reached (turtle w1)) < length (reached (turtle w2))" by simp
  from r1 r2 lt have "\<exists>r1 w1 r2 w2.
      lindenmayer_system_rec ?c ?w = Returned r1 w1 \<and>
      lindenmayer_system_rec (?c\<lparr>depth := 1\<rparr>) ?w = Returned r2 w2 \<and>
      length (reached (turtle w1)) < length (reached (turtle w2))" by blast
  with g v show ?thesis by simp
qed

lemma turning_production_runs:
  "\<exists>r w'. lindenmayer_system example_host
       ((default_call ''F'' [(''F'', Str ''F+'')] 0 90)\<lparr>compression_factor := Factor 1\<rparr>)
       None None [] = Returned r w' \<and> reached (turtle w') = [(0, 10)]"
  "\<exists>r w'. lindenmayer_system example_host
       ((default_call ''F'' [(''F'', Str ''F+'')] 1 90)\<lparr>compression_factor := Factor 1\<rparr>)
       None None [] = Returned r w' \<and> reached (turtle w') = [(0, 10)]"
  by (simp_all add: eval_defs)

text \<open>
  Claim C9 as stated (for every production that makes the string strictly longer) fails:
  the replacement \<open>F+\<close> of \<open>F\<close> is longer than \<open>F\<close>, and the axiom \<open>F\<close> makes one forward
  movement at depth 0 and one at depth 1.
\<close>

theorem longer_production_same_forward_movements:
  "length ''F'' < length ''F+'' \<and>
   (\<exists>r1 w1 r2 w2.
      lindenmayer_system example_host
        ((default_call ''F'' [(''F'', Str ''F+'')] 0 90)\<lparr>compression_factor := Factor 1\<rparr>)
        None None [] = Returned r1 w1 \<and>
      lindenmayer_system example_host
        ((default_call ''F'' [(''F'', Str ''F+'')] 1 90)\<lparr>compression_factor := Factor 1\<rparr>)
        None None [] = Returned r2 w2 \<and>
      length (reached (turtle w1)) = 1 \<and> length (reached (turtle w2)) = 1 \<and>
      \<not> length (reached (turtle w1)) < length (reached (turtle w2)))"
proof -
  from turning_production_runs obtain r1 w1 r2 w2 where
    a: "lindenmayer_system example_host
        ((default_call ''F'' [(''F'', Str ''F+'')] 0 90)\<lparr>compression_factor := Factor 1\<rparr>)
        None None [] = Returned r1 w1" "reached (turtle w1) = [(0, 10)]" and
    b: "lindenmayer_system example_host
        ((default_call ''F'' [(''F'', Str ''F+'')] 1 90)\<lparr>compression_factor := Factor 1\<rparr>)
        None None [] = Returned r2 w2" "reached (turtle w2) = [(0, 10)]"
    by blast
  show ?thesis
    apply (rule conjI)
     apply simp
    apply (rule exI [of _ r1], rule exI [of _ w1], rule exI [of _ r2], rule exI [of _ w2])
    apply (simp add: a b)
    done
qed

subsection \<open>The axiom \<open>F[+F]-F\<close>\<close>

lemma py_mod_turn: "py_mod (py_mod h 360 + a) 360 = py_mod (h + a) 360"
proof -
  have "(h - 360 * of_int \<lfloor>h / 360\<rfloor> + a) / 360 = (h + a) / 360 - of_int \<lfloor>h / 360\<rfloor>"
    by (simp add: field_simps)
  then have "\<lfloor>(h - 360 * of_int \<lfloor>h / 360\<rfloor> + a) / 360\<rfloor> = \<lfloor>(h + a) / 360\<rfloor> - \<lfloor>h / 360\<rfloor>"
    by (simp only: floor_diff_of_int)
  then show ?thesis by (simp add: py_mod_def algebra_simps)
qed

lemma py_mod_angle: "py_mod x 360 * pi / 180 = x * pi / 180 - 2 * pi * of_int \<lfloor>x / 360\<rfloor>"
  by (simp add: py_mod_def field_simps)

lemma cos_py_mod: "cos (py_mod x 360 * pi / 180) = cos (x * pi / 180)"
  unfolding py_mod_angle by (simp only: cos_diff cos_int_2pin sin_int_2pin)

lemma sin_py_mod: "sin (py_mod x 360 * pi / 180) = sin (x * pi / 180)"
  unfolding py_mod_angle by (simp only: sin_diff cos_int_2pin sin_int_2pin)

lemma bracket_example_loop:
  assumes c: "depth c = 0" "angle c = 90" "step_length c = 10"
      "find_variable (vars c) 0 CHR ''F'' = Some (r, True)" "static_color c = Some True"
      "\<not> no_draw c"
    and w: "tpos (turtle w) = (x, y)" "theading (turtle w) = h"
  shows "\<exists>res w'. parse_axiom c 0 ''F[+F]-F'' [] bb w = Returned res w' \<and> fst res = [] \<and>
      tlog (turtle w') = tlog (turtle w) @
        [Forward 10, TurnLeft 90, Forward 10, Penup,
         Goto (x + 10 * cos (h * pi / 180)) (y + 10 * sin (h * pi / 180)), Seth h, Pendown,
         TurnRight 90, Forward 10] \<and>
      theading (turtle w') = py_mod (h - 90) 360 \<and>
      tpos (turtle w') =
        (x + 10 * cos (h * pi / 180) + 10 * cos ((h - 90) * pi / 180),
         y + 10 * sin (h * pi / 180) + 10 * sin ((h - 90) * pi / 180))"
proof -
  have u: "char_isupper CHR ''F''" by (simp add: char_isupper_def)
  have t: "py_mod (py_mod h 360 - 90) 360 = py_mod (h - 90) 360"
    using py_mod_turn [of h "- 90"] by simp
  show ?thesis
    using c w
    by (simp add: parse_variable [OF u] step_simps move_forward_def is_static_def restore_def
          turtle_defs Let_def t cos_py_mod sin_py_mod)
qed

lemma py_mod_idem: "py_mod (py_mod a 360) 360 = py_mod a 360"
  using py_mod_turn [of a 0] by simp

lemma bracket_example_call:
  assumes c: "axiom c = ''F[+F]-F''" "depth c = 0" "angle c = 90" "step_length c = 10"
      "find_variable (vars c) 0 CHR ''F'' = Some (r, True)"
      "compression_factor c = Factor f" "fg_color c = StaticColor col"
      "initial_depth c = None" "\<not> no_draw c" "validate c = None"
      "system_center_cords c = (x, y)"
  shows "\<exists>res w'. lindenmayer_system h c t0 s0 ws = Returned res w' \<and>
      theading (turtle w') = py_mod (initial_angle c) 360 \<and>
      tpos (turtle w') =
        (x + 10 * cos ((initial_angle c + 90) * pi / 180) + 10 * cos (initial_angle c * pi / 180),
         y + 10 * sin ((initial_angle c + 90) * pi / 180) + 10 * sin (initial_angle c * pi / 180))"
proof -
  let ?t = "case t0 of None \<Rightarrow> Turtle | Some t \<Rightarrow> t"
  let ?s = "case s0 of None \<Rightarrow> open_screen h (screen_icon c) | Some s \<Rightarrow> s"
  let ?w1 = "\<lparr>turtle = setup_turtle c ?t, screen = ?s, warned = ws\<rparr>"
  let ?H = "py_mod (initial_angle c + 90) 360"
  obtain c1 w2 where cf: "configure h c ?w1 = (c1, w2)" by (cases "configure h c ?w1")
  from cf c have c1: "axiom c1 = ''F[+F]-F''" "depth c1 = 0" "angle c1 = 90"
      "step_length c1 = 10" "vars c1 = vars c" "compression_factor c1 = Factor f"
      "initial_depth c1 = Some 0" "static_color c1 = Some True" "\<not> no_draw c1"
      "instant_draw c1 = instant_draw c" "mainloop c1 = mainloop c"
      "extrem_cords c1 = None"
    by (auto simp: configure_def Let_def)
  from cf c have w2: "tpos (turtle w2) = (x, y)" "theading (turtle w2) = ?H"
    by (auto simp: configure_def Let_def setup_turtle_def turtle_defs py_mod_idem
        split: prod.splits)
  let ?c2 = "compress c1 f"
  have c2: "depth ?c2 = 0" "angle ?c2 = 90" "step_length ?c2 = 10"
      "find_variable (vars ?c2) 0 CHR ''F'' = Some (r, True)"
      "static_color ?c2 = Some True" "\<not> no_draw ?c2" "axiom ?c2 = ''F[+F]-F''"
    using c1 c by (simp_all add: compress_def)
  have top: "lindenmayer_system h c t0 s0 ws = draw ?c2 w2"
    using c cf c1 by (simp add: lindenmayer_system_def Let_def)
  let ?w = "w2\<lparr>turtle := suppress_drawing ?c2 (turtle w2),
      screen := (if instant_draw ?c2
                 then screen_do (TextWrite ''Drawing...'') (screen_do (Print ''Started drawing.'') (screen w2))
                 else screen_do (Print ''Started drawing.'') (screen w2))\<rparr>"
  have w: "tpos (turtle ?w) = (x, y)" "theading (turtle ?w) = ?H"
    using w2 c2 by (simp_all add: suppress_drawing_def)
  from bracket_example_loop [OF c2(1-6) w, of "((0, 0), (0, 0))"]
  obtain res w' where
    pa: "parse_axiom ?c2 0 ''F[+F]-F'' [] ((0, 0), (0, 0)) ?w = Returned res w'" and
    h: "theading (turtle w') = py_mod (?H - 90) 360" and
    p: "tpos (turtle w') =
        (x + 10 * cos (?H * pi / 180) + 10 * cos ((?H - 90) * pi / 180),
         y + 10 * sin (?H * pi / 180) + 10 * sin ((?H - 90) * pi / 180))"
    by blast
  have h': "py_mod (?H - 90) 360 = py_mod (initial_angle c) 360"
    using py_mod_turn [of "initial_angle c + 90" "- 90"] by simp
  have a1: "cos ((?H - 90) * pi / 180) = cos (initial_angle c * pi / 180)"
    using cos_py_mod [of "?H - 90"] cos_py_mod [of "initial_angle c"] h' by simp
  have a2: "sin ((?H - 90) * pi / 180) = sin (initial_angle c * pi / 180)"
    using sin_py_mod [of "?H - 90"] sin_py_mod [of "initial_angle c"] h' by simp
  obtain stk bb where res: "res = (stk, bb)" by (cases res)
  from pa res c2(7) have "\<exists>res2 w''. draw ?c2 w2 = Returned res2 w'' \<and> turtle w'' = turtle w'"
    by (simp add: draw_def Let_def warn_unclosed_def) (metis surj_pair)
  with top h p h' a1 a2 show ?thesis
    by (auto simp: cos_py_mod sin_py_mod)
qed

lemma quarter_turn_changes_heading: "py_mod (h - 90) 360 \<noteq> h"
proof
  assume "py_mod (h - 90) 360 = h"
  then have "360 * (of_int \<lfloor>(h - 90) / 360\<rfloor> :: real) = - 90" by (simp add: py_mod_def)
  then have "(of_int (4 * \<lfloor>(h - 90) / 360\<rfloor>) :: real) = of_int (- 1)" by simp
  then have "4 * \<lfloor>(h - 90) / 360\<rfloor> = - 1" by (simp only: of_int_eq_iff)
  then show False by presburger
qed

text \<open>
  Claim C3, as the code has it. With a step length of 10, an angle of 90 and \<open>F\<close> a
  variable that draws, the loop at depth 0 on the axiom \<open>F[+F]-F\<close> calls, in this
  order: forward 10; (the state is stored;) left 90; forward 10; pen up, go to the
  stored position, set the stored heading, pen down; right 90; forward 10. The list of
  stored states is empty again at the end. The final heading is the initial heading
  \<open>h\<close> turned right by 90 degrees, \<open>(h - 90) % 360\<close>, which is never \<open>h\<close>. The final
  position is the initial position plus the two forward movements outside the brackets:
  10 in the direction \<open>h\<close> and 10 in the direction \<open>h - 90\<close>. For the top-level call with
  a fixed compression factor and one colour, the set-up turns the turtle to
  \<open>(initial_angle + 90) % 360\<close> and puts it at the centre, so the call ends with the
  heading \<open>initial_angle % 360\<close>.
\<close>

theorem branch_then_turn_right:
  "(depth c = 0 \<and> angle c = 90 \<and> step_length c = 10 \<and>
    find_variable (vars c) 0 CHR ''F'' = Some (r, True) \<and> static_color c = Some True \<and>
    \<not> no_draw c \<and> tpos (turtle w) = (x, y) \<and> theading (turtle w) = h \<longrightarrow>
      (\<exists>res w'. parse_axiom c 0 ''F[+F]-F'' [] bb w = Returned res w' \<and> fst res = [] \<and>
         tlog (turtle w') = tlog (turtle w) @
           [Forward 10, TurnLeft 90, Forward 10, Penup,
            Goto (x + 10 * cos (h * pi / 180)) (y + 10 * sin (h * pi / 180)), Seth h, Pendown,
            TurnRight 90, Forward 10] \<and>
         theading (turtle w') = py_mod (h - 90) 360 \<and>
         theading (turtle w') \<noteq> h \<and>
         tpos (turtle w') =
           (x + 10 * cos (h * pi / 180) + 10 * cos ((h - 90) * pi / 180),
            y + 10 * sin (h * pi / 180) + 10 * sin ((h - 90) * pi / 180)))) \<and>
   (axiom c = ''F[+F]-F'' \<and> depth c = 0 \<and> angle c = 90 \<and> step_length c = 10 \<and>
    find_variable (vars c) 0 CHR ''F'' = Some (r, True) \<and>
    compression_factor c = Factor f \<and> fg_color c = StaticColor col \<and>
    initial_depth c = None \<and> \<not> no_draw c \<and> validate c = None \<and>
    system_center_cords c = (x, y) \<longrightarrow>
      (\<exists>res w'. lindenmayer_system hst c t0 s0 ws = Returned res w' \<and>
         theading (turtle w') = py_mod (initial_angle c) 360 \<and>
         tpos (turtle w') =
           (x + 10 * cos ((initial_angle c + 90) * pi / 180)
              + 10 * cos (initial_angle c * pi / 180),
            y + 10 * sin ((initial_angle c + 90) * pi / 180)
              + 10 * sin (initial_angle c * pi / 180))))"
proof (rule conjI; rule impI)
  assume a: "depth c = 0 \<and> angle c = 90 \<and> step_length c = 10 \<and>
    find_variable (vars c) 0 CHR ''F'' = Some (r, True) \<and> static_color c = Some True \<and>
    \<not> no_draw c \<and> tpos (turtle w) = (x, y) \<and> theading (turtle w) = h"
  then have "\<exists>res w'. parse_axiom c 0 ''F[+F]-F'' [] bb w = Returned res w' \<and> fst res = [] \<and>
      tlog (turtle w') = tlog (turtle w) @
        [Forward 10, TurnLeft 90, Forward 10, Penup,
         Goto (x + 10 * cos (h * pi / 180)) (y + 10 * sin (h * pi / 180)), Seth h, Pendown,
         TurnRight 90, Forward 10] \<and>
      theading (turtle w') = py_mod (h - 90) 360 \<and>
      tpos (turtle w') =
        (x + 10 * cos (h * pi / 180) + 10 * cos ((h - 90) * pi / 180),
         y + 10 * sin (h * pi / 180) + 10 * sin ((h - 90) * pi / 180))"
    by (intro bracket_example_loop) simp_all
  then show "\<exists>res w'. parse_axiom c 0 ''F[+F]-F'' [] bb w = Returned res w' \<and> fst res = [] \<and>
         tlog (turtle w') = tlog (turtle w) @
           [Forward 10, TurnLeft 90, Forward 10, Penup,
            Goto (x + 10 * cos (h * pi / 180)) (y + 10 * sin (h * pi / 180)), Seth h, Pendown,
            TurnRight 90, Forward 10] \<and>
         theading (turtle w') = py_mod (h - 90) 360 \<and>
         theading (turtle w') \<noteq> h \<and>
         tpos (turtle w') =
           (x + 10 * cos (h * pi / 180) + 10 * cos ((h - 90) * pi / 180),
            y + 10 * sin (h * pi / 180) + 10 * sin ((h - 90) * pi / 180))"
    using quarter_turn_changes_heading [of h] by metis
next
  assume "axiom c = ''F[+F]-F'' \<and> depth c = 0 \<and> angle c = 90 \<and> step_length c = 10 \<and>
    find_variable (vars c) 0 CHR ''F'' = Some (r, True) \<and>
    compression_factor c = Factor f \<and> fg_color c = StaticColor col \<and>
    initial_depth c = None \<and> \<not> no_draw c \<and> validate c = None \<and>
    system_center_cords c = (x, y)"
  then show "\<exists>res w'. lindenmayer_system hst c t0 s0 ws = Returned res w' \<and>
         theading (turtle w') = py_mod (initial_angle c) 360 \<and>
         tpos (turtle w') =
           (x + 10 * cos ((initial_angle c + 90) * pi / 180)
              + 10 * cos (initial_angle c * pi / 180),
            y + 10 * sin ((initial_angle c + 90) * pi / 180)
              + 10 * sin (initial_angle c * pi / 180))"
    by (intro bracket_example_call) simp_all
qed

lemma bracket_call_facts:
  "axiom bracket_call = ''F[+F]-F''" "depth bracket_call = 0" "angle bracket_call = 90"
  "step_length bracket_call = 10"
  "find_variable (vars bracket_call) 0 CHR ''F'' = Some (''F'', True)"
  "compression_factor bracket_call = Factor 1"
  "fg_color bracket_call = StaticColor (255, 255, 255)"
  "initial_depth bracket_call = None" "\<not> no_draw bracket_call"
  "validate bracket_call = None" "system_center_cords bracket_call = (0, 0)"
  "initial_angle bracket_call = 0"
  by (simp_all add: bracket_call_def default_call_def validate_def char_defs)

theorem branch_then_turn_right_witness:
  "validate bracket_call = None \<and>
   (\<exists>res w'. lindenmayer_system example_host bracket_call None None [] = Returned res w' \<and>
      theading (turtle w') = 0 \<and> tpos (turtle w') = (10, 10))"
  using branch_then_turn_right [where c = bracket_call and r = "''F''" and f = 1
      and col = "(255, 255, 255)" and x = 0 and y = 0 and hst = example_host
      and ?t0.0 = None and ?s0.0 = None and ws = "[]", THEN conjunct2]
  by (simp add: bracket_call_facts py_mod_def)

text \<open>
  Claim C3 as stated (the final heading equals the initial heading) fails: called with
  a turtle that is turned to 180, the set-up turns it to 90, and the call ends with the
  heading 0, at \<open>(10, 10)\<close>.
\<close>

theorem final_heading_is_not_initial_heading:
  "\<exists>res w'. lindenmayer_system example_host bracket_call
        (Some (Turtle\<lparr>theading := 180\<rparr>)) None [] = Returned res w' \<and>
      theading (Turtle\<lparr>theading := 180\<rparr>) = 180 \<and>
      theading (setup_turtle bracket_call (Turtle\<lparr>theading := 180\<rparr>)) = 90 \<and>
      theading (turtle w') = 0 \<and>
      theading (turtle w') \<noteq> theading (Turtle\<lparr>theading := 180\<rparr>) \<and>
      theading (turtle w') \<noteq> theading (setup_turtle bracket_call (Turtle\<lparr>theading := 180\<rparr>)) \<and>
      tpos (turtle w') = (10, 10)"
proof -
  from bracket_example_call [where c = bracket_call and r = "''F''" and f = 1
      and col = "(255, 255, 255)" and x = 0 and y = 0 and h = example_host
      and ?t0.0 = "Some (Turtle\<lparr>theading := 180\<rparr>)" and ?s0.0 = None and ws = "[]"]
  obtain res w' where
    run: "lindenmayer_system example_host bracket_call
        (Some (Turtle\<lparr>theading := 180\<rparr>)) None [] = Returned res w'" and
    h: "theading (turtle w') = 0" and p: "tpos (turtle w') = (10, 10)"
    by (auto simp: bracket_call_facts py_mod_def)
  have s: "theading (setup_turtle bracket_call (Turtle\<lparr>theading := 180\<rparr>)) = 90"
    "theading (Turtle\<lparr>theading := 180\<rparr>) = 180"
    by (simp_all add: bracket_call_facts py_mod_def setup_turtle_def turtle_defs)
  show ?thesis
    apply (rule exI [of _ res], rule exI [of _ w'])
    apply (simp only: run h p s)
    apply simp
    done
qed

end
